theory Spec2Isabelle
  imports Main "HOL-Library.Sublist"
begin

text \<open>
  The program is the script of a web page that turns a story of one site into an EPUB
  file: \<open>app.js\<close>. The repository also holds an earlier variant of the same script, with
  one fixed proxy, no retry, a single content selector, no pattern for \<open>iframe\<close> and a
  test of the link's resolved \<open>href\<close> property in \<open>fetchChapters\<close>; its \<open>createEpub\<close>,
  \<open>escapeXml\<close> and \<open>sanitizeFilename\<close> read as those of \<open>app.js\<close>.
  What follows models \<open>app.js\<close>; line numbers are its lines.
\<close>

section \<open>JavaScript strings and numbers\<close>

text \<open>
  A JavaScript string is a sequence of UTF-16 code units. It is modelled as a HOL
  \<open>string\<close>, one \<open>char\<close> per code unit, so the model covers the strings whose
  code units are below 256 (ASCII and Latin-1); \<open>length\<close> is the \<open>.length\<close> of the
  source. \<open>code c\<close> is the numeric value of a code unit.
\<close>

definition code :: "char \<Rightarrow> nat" where
  "code c = of_char c"

text \<open>Template literals render a non-negative integer in decimal (\<open>`${n}`\<close>).\<close>

definition digit_char :: "nat \<Rightarrow> char" where
  "digit_char d = char_of (48 + d)"

function show_nat :: "nat \<Rightarrow> string" where
  "show_nat n = (if n < 10 then [digit_char n] else show_nat (n div 10) @ [digit_char (n mod 10)])"
  by pat_completeness auto
termination
  by (relation "measure id") auto

declare show_nat.simps [simp del]

text \<open>\<open>String.prototype.startsWith\<close>.\<close>

definition startsWith :: "string \<Rightarrow> string \<Rightarrow> bool" where
  "startsWith s p = (take (length p) s = p)"

section \<open>Errors\<close>

text \<open>
  Every value the program throws or catches is an error object with a \<open>message\<close>:
  \<open>Error\<close> is built by the program itself (\<open>new Error(...)\<close>), \<open>TypeError\<close> is
  raised by the runtime (a property read on \<open>null\<close> or \<open>undefined\<close>, a rejected
  network request), \<open>AbortError\<close> is the rejection of a request aborted by the timeout.
\<close>

datatype js_error = Error string | TypeError string | AbortError string

fun message :: "js_error \<Rightarrow> string" where
  "message (Error m) = m"
| "message (TypeError m) = m"
| "message (AbortError m) = m"

section \<open>Proxy rotation (app.js, lines 4-14)\<close>

definition CORS_PROXIES :: "string list" where
  "CORS_PROXIES =
     [''https://corsproxy.io/?'',
      ''https://api.allorigins.win/raw?url='',
      ''https://cors-anywhere.herokuapp.com/'']"

text \<open>
  The state of one page: the global \<open>currentProxyIndex\<close>, and a log of what the run
  did to the outside: the URLs requested, in order, and the milliseconds spent in
  \<open>sleep\<close>.
\<close>

record world =
  currentProxyIndex :: nat
  requests :: "string list"
  slept :: nat

text \<open>
  \<open>CORS_PROXIES[i]\<close>; an index out of range reads \<open>undefined\<close>, which the
  concatenation of line 96 renders as the text \<open>undefined\<close>.
\<close>

definition proxyAt :: "nat \<Rightarrow> string" where
  "proxyAt i = (if i < length CORS_PROXIES then CORS_PROXIES ! i else ''undefined'')"

definition getProxy :: "world \<Rightarrow> string" where
  "getProxy w = proxyAt (currentProxyIndex w)"

section \<open>encodeURIComponent\<close>

definition hex_digit :: "nat \<Rightarrow> char" where
  "hex_digit d = ''0123456789ABCDEF'' ! (d mod 16)"

definition percent :: "nat \<Rightarrow> string" where
  "percent b = [CHR ''%'', hex_digit (b div 16), hex_digit b]"

definition uri_unreserved :: "char \<Rightarrow> bool" where
  "uri_unreserved c =
     ((65 \<le> code c \<and> code c \<le> 90) \<or> (97 \<le> code c \<and> code c \<le> 122) \<or>
      (48 \<le> code c \<and> code c \<le> 57) \<or> c \<in> set ''-_.!~*()'' \<or> code c = 39)"

text \<open>
  Unreserved characters are kept; any other code unit is percent-encoded through its
  UTF-8 bytes: one byte below 128, two bytes from 128 to 255.
\<close>

definition encode_unit :: "char \<Rightarrow> string" where
  "encode_unit c =
     (if uri_unreserved c then [c]
      else if code c < 128 then percent (code c)
      else percent (192 + code c div 64) @ percent (128 + code c mod 64))"

definition encodeURIComponent :: "string \<Rightarrow> string" where
  "encodeURIComponent s = concat (map encode_unit s)"

section \<open>The HTTP client\<close>

text \<open>
  What one \<open>fetch\<close> call can do: reject (a network error, or the abort fired by the
  30 second timer), or resolve to a response with a status, whose body read
  (\<open>response.text()\<close>) either rejects or yields the text. \<open>response.ok\<close> is true for
  the statuses 200 to 299.
\<close>

datatype body_read = BodyRejected js_error | BodyText string

datatype outcome = Rejected js_error | Response nat body_read

definition response_ok :: "nat \<Rightarrow> bool" where
  "response_ok st = (200 \<le> st \<and> st \<le> 299)"

text \<open>
  The transport is the outside world: it answers a request from the number of requests
  made before it and the requested URL.
\<close>

type_synonym transport = "nat \<Rightarrow> string \<Rightarrow> outcome"

section \<open>fetchWithRetry (app.js, lines 91-136)\<close>

text \<open>The body of the \<open>try\<close> block after the request has settled (lines 111-121).\<close>

fun attempt_result :: "outcome \<Rightarrow> js_error + string" where
  "attempt_result (Rejected e) = Inl e"
| "attempt_result (Response st b) =
     (if \<not> response_ok st then Inl (Error (''HTTP '' @ show_nat st))
      else case b of
        BodyRejected e \<Rightarrow> Inl e
      | BodyText t \<Rightarrow>
          if t = [] \<or> length t < 100 then Inl (Error ''Response too short or empty'')
          else Inr t)"

text \<open>Lines 128-131: rotate to the next proxy and wait, unless this was the last attempt.\<close>

definition rotate :: "nat \<Rightarrow> nat \<Rightarrow> world \<Rightarrow> world" where
  "rotate attempt maxRetries w =
     (if int attempt < int maxRetries - 1
      then w\<lparr>currentProxyIndex := (currentProxyIndex w + 1) mod length CORS_PROXIES,
             slept := slept w + 2000\<rparr>
      else w)"

text \<open>
  The \<open>for\<close> loop of line 94 from a given value of \<open>attempt\<close>, with \<open>lastError\<close>
  (\<open>None\<close> while it is \<open>undefined\<close>), and the \<open>throw\<close> of line 135 after it. With no
  attempt made, reading \<open>lastError.message\<close> raises a \<open>TypeError\<close>.
\<close>

definition undefined_message :: string where
  "undefined_message =
     ''Cannot read properties of undefined (reading '' @ [char_of (39::nat)] @ ''message'' @
     [char_of (39::nat)] @ '')''"

function fetch_loop ::
  "transport \<Rightarrow> string \<Rightarrow> nat \<Rightarrow> nat \<Rightarrow> js_error option \<Rightarrow> world \<Rightarrow> (js_error + string) \<times> world"
where
  "fetch_loop tr url maxRetries attempt lastError w =
     (if attempt < maxRetries then
        (let proxyUrl = getProxy w @ encodeURIComponent url;
             w1 = w\<lparr>requests := requests w @ [proxyUrl]\<rparr>
         in case attempt_result (tr (length (requests w)) proxyUrl) of
              Inr t \<Rightarrow> (Inr t, w1)
            | Inl e \<Rightarrow>
                fetch_loop tr url maxRetries (Suc attempt) (Some e) (rotate attempt maxRetries w1))
      else
        (case lastError of
           None \<Rightarrow> (Inl (TypeError undefined_message), w)
         | Some e \<Rightarrow>
             (Inl (Error (''Failed to fetch after '' @ show_nat maxRetries @ '' attempts: ''
                          @ message e)), w)))"
  by pat_completeness auto
termination
  by (relation "measure (\<lambda>(tr, url, maxRetries, attempt, lastError, w). maxRetries - attempt)") auto

declare fetch_loop.simps [simp del]

definition fetchWithRetry ::
  "transport \<Rightarrow> string \<Rightarrow> nat \<Rightarrow> world \<Rightarrow> (js_error + string) \<times> world"
where
  "fetchWithRetry tr url maxRetries w = fetch_loop tr url maxRetries 0 None w"




section \<open>Regular expressions\<close>

text \<open>
  The regular expressions of the program are all used through
  \<open>String.prototype.replace\<close> with the \<open>g\<close> flag. They are modelled by their syntax
  trees and a backtracking matcher that follows the pattern semantics of the language: a
  matcher maps a position to the positions at which a match can end, in the order in which
  backtracking tries them, so the match the engine reports is the first of the list.
  A position is the code unit before the cursor (if any) and the text after it.
  The patterns have no capture groups, no back-references and none of the flags
  \<open>m\<close>, \<open>s\<close>, \<open>u\<close>, \<open>y\<close>.
\<close>

datatype regex =
    Eps
  | Chr char
  | NotIn "(char \<times> char) list"
  | WordB
  | NegLook regex
  | Seq regex regex
  | Star regex

type_synonym pos = "char option \<times> string"

text \<open>\<open>\w\<close>: the 63 basic word characters.\<close>

definition isWordChar :: "char \<Rightarrow> bool" where
  "isWordChar c =
     ((65 \<le> code c \<and> code c \<le> 90) \<or> (97 \<le> code c \<and> code c \<le> 122) \<or>
      (48 \<le> code c \<and> code c \<le> 57) \<or> code c = 95)"

text \<open>
  \<open>Canonicalize\<close> of the pattern semantics, without the \<open>u\<close> flag: under \<open>i\<close> a code unit
  is compared through its upper case. Below 256 the lower-case letters are \<open>a\<close> to \<open>z\<close>
  and 224 to 254 without 247, each 32 above its upper case; 181 and 255 have upper cases
  outside the model that no other modelled code unit shares, and 223 has none of one code
  unit, so all three stay themselves.
\<close>

definition canonicalize :: "bool \<Rightarrow> char \<Rightarrow> char" where
  "canonicalize ignoreCase c =
     (if ignoreCase \<and>
         ((97 \<le> code c \<and> code c \<le> 122) \<or>
          (224 \<le> code c \<and> code c \<le> 254 \<and> code c \<noteq> 247))
      then char_of (code c - 32) else c)"

text \<open>The members of a class given by its ranges, and the test of a negated class.\<close>

definition members :: "(char \<times> char) list \<Rightarrow> char list" where
  "members rs = concat (map (\<lambda>(lo, hi). map char_of [code lo..<Suc (code hi)]) rs)"

definition inClass :: "bool \<Rightarrow> (char \<times> char) list \<Rightarrow> char \<Rightarrow> bool" where
  "inClass ic rs x = list_ex (\<lambda>m. canonicalize ic m = canonicalize ic x) (members rs)"

definition wordBefore :: "char option \<Rightarrow> bool" where
  "wordBefore p = (case p of None \<Rightarrow> False | Some c \<Rightarrow> isWordChar c)"

definition wordAt :: "string \<Rightarrow> bool" where
  "wordAt s = (case s of [] \<Rightarrow> False | c # _ \<Rightarrow> isWordChar c)"

text \<open>
  \<open>ms ic r q\<close>: the end positions of the matches of \<open>r\<close> that start at \<open>q\<close>, in
  backtracking order. \<open>Star\<close> is the greedy \<open>*\<close>: it first tries one more iteration, then
  none; an iteration that consumes nothing is rejected, as the language prescribes.
\<close>

function ms :: "bool \<Rightarrow> regex \<Rightarrow> pos \<Rightarrow> pos list" where
  "ms ic Eps (p, s) = [(p, s)]"
| "ms ic (Chr c) (p, s) =
     (case s of [] \<Rightarrow> []
      | x # xs \<Rightarrow> if canonicalize ic x = canonicalize ic c then [(Some x, xs)] else [])"
| "ms ic (NotIn rs) (p, s) =
     (case s of [] \<Rightarrow> []
      | x # xs \<Rightarrow> if inClass ic rs x then [] else [(Some x, xs)])"
| "ms ic WordB (p, s) = (if wordBefore p \<noteq> wordAt s then [(p, s)] else [])"
| "ms ic (NegLook r) (p, s) = (if ms ic r (p, s) = [] then [(p, s)] else [])"
| "ms ic (Seq r1 r2) (p, s) = concat (map (ms ic r2) (ms ic r1 (p, s)))"
| "ms ic (Star r) (p, s) =
     concat (map (ms ic (Star r)) (filter (\<lambda>q. length (snd q) < length s) (ms ic r (p, s))))
     @ [(p, s)]"
  by pat_completeness auto
termination
  by (relation "inv_image (less_than <*lex*> less_than) (\<lambda>(ic, r, p, s). (size r, length s))") auto

declare ms.simps(7) [simp del]

text \<open>
  \<open>str.replace(/r/g, rep)\<close> for a replacement text without \<open>$\<close>: scan from the left;
  where the pattern matches, emit the replacement and go on after the match (one code
  unit further when the match is empty); elsewhere copy one code unit.
\<close>

function replace_from :: "bool \<Rightarrow> regex \<Rightarrow> string \<Rightarrow> char option \<Rightarrow> string \<Rightarrow> string" where
  "replace_from ic r rep p s =
     (case ms ic r (p, s) of
        [] \<Rightarrow> (case s of [] \<Rightarrow> [] | x # xs \<Rightarrow> x # replace_from ic r rep (Some x) xs)
      | (p', s') # _ \<Rightarrow>
          if length s' < length s then rep @ replace_from ic r rep p' s'
          else rep @ (case s of [] \<Rightarrow> [] | x # xs \<Rightarrow> x # replace_from ic r rep (Some x) xs))"
  by pat_completeness auto
termination
  by (relation "measure (\<lambda>(ic, r, rep, p, s). length s)") auto

declare replace_from.simps [simp del]

definition replaceAll :: "bool \<Rightarrow> regex \<Rightarrow> string \<Rightarrow> string \<Rightarrow> string" where
  "replaceAll ic r rep s = replace_from ic r rep None s"

text \<open>A literal text, and a sequence of patterns.\<close>

definition lit :: "string \<Rightarrow> regex" where
  "lit s = foldr (\<lambda>c r. Seq (Chr c) r) s Eps"

definition seqs :: "regex list \<Rightarrow> regex" where
  "seqs rs = foldr Seq rs Eps"

section \<open>Utility functions (app.js, lines 310-321)\<close>

text \<open>\<open>escapeXml\<close>: five global replacements, \<open>&\<close> first.\<close>

definition escapeXml :: "string \<Rightarrow> string" where
  \<open>escapeXml str =
     replaceAll False (Chr (char_of (39::nat))) ''&apos;''
       (replaceAll False (Chr (CHR 0x22)) ''&quot;''
         (replaceAll False (Chr CHR ''>'') ''&gt;''
           (replaceAll False (Chr CHR ''<'') ''&lt;''
             (replaceAll False (Chr CHR ''&'') ''&amp;'' str))))\<close>

text \<open>\<open>String.prototype.toLowerCase\<close> on code units below 256.\<close>

definition lowerChar :: "char \<Rightarrow> char" where
  "lowerChar c =
     (if (65 \<le> code c \<and> code c \<le> 90) \<or> (192 \<le> code c \<and> code c \<le> 222 \<and> code c \<noteq> 215)
      then char_of (code c + 32) else c)"

definition toLowerCase :: "string \<Rightarrow> string" where
  "toLowerCase s = map lowerChar s"

text \<open>\<open>sanitizeFilename\<close>: \<open>name.replace(/[^a-z0-9]/gi, "_").toLowerCase()\<close>.\<close>

definition sanitizeFilename :: "string \<Rightarrow> string" where
  "sanitizeFilename name =
     toLowerCase (replaceAll True (NotIn [(CHR ''a'', CHR ''z''), (CHR ''0'', CHR ''9'')]) ''_'' name)"

text \<open>
  \<open>String.prototype.split\<close> with a non-empty separator: \<open>cur\<close> is the segment being
  read. (With the empty separator the language splits between all code units; the
  program never does that.)
\<close>

function split_from :: "string \<Rightarrow> string \<Rightarrow> string \<Rightarrow> string list" where
  "split_from sep cur s =
     (case s of
        [] \<Rightarrow> [cur]
      | x # xs \<Rightarrow>
          if sep \<noteq> [] \<and> startsWith s sep then cur # split_from sep [] (drop (length sep) s)
          else split_from sep (cur @ [x]) xs)"
  by pat_completeness auto
termination
  by (relation "measure (\<lambda>(sep, cur, s). length s)") auto

declare split_from.simps [simp del]

definition split :: "string \<Rightarrow> string \<Rightarrow> string list" where
  "split s sep = split_from sep [] s"

text \<open>\<open>Array.prototype.join\<close>.\<close>

fun join :: "string \<Rightarrow> string list \<Rightarrow> string" where
  "join sep [] = []"
| "join sep [x] = x"
| "join sep (x # y # ys) = x @ sep @ join sep (y # ys)"



section \<open>The parsed document\<close>

text \<open>
  \<open>DOMParser\<close> and the selector engine belong to the browser. Of an element the program
  reads \<open>textContent\<close>, \<open>innerHTML\<close> and \<open>getAttribute("href")\<close> (\<open>None\<close> is \<open>null\<close>:
  the element has no such attribute). A parsed document is what \<open>querySelectorAll\<close>
  answers for each selector, in document order; \<open>querySelector\<close> is its first element.
\<close>

record element =
  textContent :: string
  innerHTML :: string
  hrefAttribute :: "string option"

type_synonym document = "string \<Rightarrow> element list"


definition querySelector :: "document \<Rightarrow> string \<Rightarrow> element option" where
  "querySelector doc sel = (case doc sel of [] \<Rightarrow> None | el # _ \<Rightarrow> Some el)"

section \<open>fetchChapters (app.js, lines 141-170)\<close>

text \<open>
  A chapter reference is a title and a URL, a chapter content a title and the cleaned
  markup. \<open>fetchChapters\<close> and \<open>fetchChapterContent\<close> call \<open>fetchWithRetry\<close> with its
  default of 3 attempts.
\<close>

record titled =
  title :: string

record chapterRef = titled +
  url :: string

record chapterContent = titled +
  content :: string




section \<open>fetchChapterContent (app.js, lines 175-210)\<close>

text \<open>
  The three patterns of lines 200-202, each used with the flags \<open>gi\<close>. For
  \<open>script\<close> the source reads
  \<^verbatim>\<open>/<script\b[^<]*(?:(?!<\/script>)<[^<]*)*<\/script>/gi\<close>:
  the text \<open><script\<close>, a word boundary, code units other than \<open><\<close>, then any number
  of times a \<open><\<close> that does not begin \<open></script>\<close> followed by code units other than
  \<open><\<close>, then the text \<open></script>\<close>. The other two differ in the tag name only.
\<close>

definition notLt :: regex where
  "notLt = NotIn [(CHR ''<'', CHR ''<'')]"

definition block_re :: "string \<Rightarrow> regex" where
  "block_re tag =
     seqs [lit (''<'' @ tag), WordB, Star notLt,
           Star (seqs [NegLook (lit (''</'' @ tag @ ''>'')), Chr CHR ''<'', Star notLt]),
           lit (''</'' @ tag @ ''>'')]"

definition cleanContent :: "string \<Rightarrow> string" where
  "cleanContent c =
     replaceAll True (block_re ''iframe'') []
       (replaceAll True (block_re ''style'') []
         (replaceAll True (block_re ''script'') [] c))"

text \<open>Lines 182-190: the selectors tried in turn.\<close>

definition findContentDiv :: "document \<Rightarrow> element option" where
  "findContentDiv doc =
     (case querySelector doc ''.aa_ht'' of
        Some d \<Rightarrow> Some d
      | None \<Rightarrow>
          (case querySelector doc ''div.panel article'' of
             Some d \<Rightarrow> Some d
           | None \<Rightarrow> querySelector doc ''.b-story-body-x''))"

text \<open>The \<open>try\<close> block (lines 177-204), then the \<open>catch\<close> that wraps every error (206-209).\<close>

definition fetchChapterContent ::
  "transport \<Rightarrow> (string \<Rightarrow> document) \<Rightarrow> string \<Rightarrow> nat \<Rightarrow> nat \<Rightarrow> world \<Rightarrow> (js_error + string) \<times> world"
where
  "fetchChapterContent tr parseFromString u chapterNum totalChapters w =
     (case fetchWithRetry tr u 3 w of
        (r, w') \<Rightarrow>
          (let tried =
                 (case r of
                    Inl e \<Rightarrow> Inl e
                  | Inr html \<Rightarrow>
                      (case findContentDiv (parseFromString html) of
                         None \<Rightarrow>
                           Inl (Error (''Could not find story content for chapter '' @
                                       show_nat chapterNum))
                       | Some contentDiv \<Rightarrow> Inr (cleanContent (innerHTML contentDiv))))
           in case tried of
                Inl e \<Rightarrow>
                  (Inl (Error (''Failed to fetch chapter '' @ show_nat chapterNum @ ''/'' @
                               show_nat totalChapters @ '': '' @ message e)), w')
              | Inr c \<Rightarrow> (Inr c, w')))"

section \<open>The archive writer\<close>

text \<open>
  JSZip is a library the page loads. Its interface as the program uses it: an archive is
  the list of its entries in the order in which they were first added, which is the
  order in which they are written; \<open>file\<close> adds an entry or replaces the one of the
  same name, \<open>folder\<close> adds a directory entry unless it exists, and the files of a
  folder are named under its path. The compression recorded for an entry is the one given
  in the options (none by default), except that a directory entry and an entry without
  data are always recorded with \<open>STORE\<close>.
\<close>

datatype compression = STORE | DEFLATE

record zipEntry =
  entryName :: string
  entryData :: string
  entryDir :: bool
  entryCompression :: "compression option"

type_synonym jszip = "zipEntry list"

definition zip_file :: "string \<Rightarrow> string \<Rightarrow> compression option \<Rightarrow> jszip \<Rightarrow> jszip" where
  "zip_file nm dat opt z =
     (let e = \<lparr>entryName = nm, entryData = dat, entryDir = False,
                entryCompression = (if dat = [] then Some STORE else opt)\<rparr>
      in if nm \<in> set (map entryName z) then map (\<lambda>x. if entryName x = nm then e else x) z
         else z @ [e])"

definition zip_folder :: "string \<Rightarrow> jszip \<Rightarrow> jszip" where
  "zip_folder nm z =
     (if (nm @ ''/'') \<in> set (map entryName z) then z
      else z @ [\<lparr>entryName = nm @ ''/'', entryData = [], entryDir = True,
                 entryCompression = Some STORE\<rparr>])"

section \<open>createEpub (app.js, lines 215-300)\<close>

definition container_xml :: string where
  \<open>container_xml =
     ''<?xml version="1.0"?>\<newline>'' @
     ''<container version="1.0" xmlns="urn:oasis:names:tc:opendocument:xmlns:container">\<newline>'' @
     ''  <rootfiles>\<newline>'' @
     ''    <rootfile full-path="OEBPS/content.opf" media-type="application/oebps-package+xml"/>\<newline>'' @
     ''  </rootfiles>\<newline>'' @
     ''</container>''\<close>

definition chapter_xhtml :: "chapterContent \<Rightarrow> string" where
  \<open>chapter_xhtml chapter =
     ''<?xml version="1.0" encoding="UTF-8"?>\<newline>'' @
     ''<!DOCTYPE html>\<newline>'' @
     ''<html xmlns="http://www.w3.org/1999/xhtml">\<newline>'' @
     ''<head>\<newline>'' @
     ''  <title>'' @
     escapeXml (title chapter) @
     ''</title>\<newline>'' @
     ''</head>\<newline>'' @
     ''<body>\<newline>'' @
     ''  <h1>'' @
     escapeXml (title chapter) @
     ''</h1>\<newline>'' @
     ''  '' @
     content chapter @
     ''\<newline>'' @
     ''</body>\<newline>'' @
     ''</html>''\<close>

text \<open>The \<open>forEach\<close> of lines 234-247, from index \<open>i\<close>.\<close>

fun forEach_chapter :: "nat \<Rightarrow> chapterContent list \<Rightarrow> jszip \<Rightarrow> jszip" where
  "forEach_chapter i [] z = z"
| "forEach_chapter i (chapter # chapters) z =
     forEach_chapter (Suc i) chapters
       (zip_file (''OEBPS/'' @ ''chapter'' @ show_nat (i + 1) @ ''.xhtml'')
          (chapter_xhtml chapter) None z)"

definition manifest_item :: "nat \<Rightarrow> string" where
  \<open>manifest_item i =
     ''    <item id="chapter'' @
     show_nat (i + 1) @
     ''" href="chapter'' @
     show_nat (i + 1) @
     ''.xhtml" media-type="application/xhtml+xml"/>''\<close>

definition spine_ref :: "nat \<Rightarrow> string" where
  \<open>spine_ref i =
     ''    <itemref idref="chapter'' @
     show_nat (i + 1) @
     ''"/>''\<close>

definition navPoint :: "chapterContent \<Rightarrow> nat \<Rightarrow> string" where
  \<open>navPoint chapter i =
     ''    <navPoint id="chapter'' @
     show_nat (i + 1) @
     ''" playOrder="'' @
     show_nat (i + 1) @
     ''">\<newline>'' @
     ''      <navLabel>\<newline>'' @
     ''        <text>'' @
     escapeXml (title chapter) @
     ''</text>\<newline>'' @
     ''      </navLabel>\<newline>'' @
     ''      <content src="chapter'' @
     show_nat (i + 1) @
     ''.xhtml"/>\<newline>'' @
     ''    </navPoint>''\<close>

text \<open>\<open>chapters.map((chapter, i) => f)\<close>: the elements with their indices.\<close>

definition map_index :: "('a \<Rightarrow> nat \<Rightarrow> 'b) \<Rightarrow> 'a list \<Rightarrow> 'b list" where
  "map_index f xs = map (\<lambda>(x, i). f x i) (zip xs [0..<length xs])"

definition content_opf :: "nat \<Rightarrow> string \<Rightarrow> string \<Rightarrow> string \<Rightarrow> string" where
  \<open>content_opf now storyTitle chapterManifest chapterSpine =
     ''<?xml version="1.0" encoding="UTF-8"?>\<newline>'' @
     ''<package xmlns="http://www.idpf.org/2007/opf" version="3.0" unique-identifier="uid">\<newline>'' @
     ''  <metadata xmlns:dc="http://purl.org/dc/elements/1.1/">\<newline>'' @
     ''    <dc:title>'' @
     escapeXml storyTitle @
     ''</dc:title>\<newline>'' @
     ''    <dc:creator>Literotica Author</dc:creator>\<newline>'' @
     ''    <dc:language>en</dc:language>\<newline>'' @
     ''    <dc:identifier id="uid">literotica-'' @
     show_nat now @
     ''</dc:identifier>\<newline>'' @
     ''  </metadata>\<newline>'' @
     ''  <manifest>\<newline>'' @
     ''    <item id="ncx" href="toc.ncx" media-type="application/x-dtbncx+xml"/>\<newline>'' @
     chapterManifest @
     ''\<newline>'' @
     ''  </manifest>\<newline>'' @
     ''  <spine toc="ncx">\<newline>'' @
     chapterSpine @
     ''\<newline>'' @
     ''  </spine>\<newline>'' @
     ''</package>''\<close>

definition toc_ncx :: "nat \<Rightarrow> string \<Rightarrow> string \<Rightarrow> string" where
  \<open>toc_ncx now storyTitle navPoints =
     ''<?xml version="1.0" encoding="UTF-8"?>\<newline>'' @
     ''<ncx xmlns="http://www.daisy.org/z3986/2005/ncx/" version="2005-1">\<newline>'' @
     ''  <head>\<newline>'' @
     ''    <meta name="dtb:uid" content="literotica-'' @
     show_nat now @
     ''"/>\<newline>'' @
     ''    <meta name="dtb:depth" content="1"/>\<newline>'' @
     ''  </head>\<newline>'' @
     ''  <docTitle>\<newline>'' @
     ''    <text>'' @
     escapeXml storyTitle @
     ''</text>\<newline>'' @
     ''  </docTitle>\<newline>'' @
     ''  <navMap>\<newline>'' @
     navPoints @
     ''\<newline>'' @
     ''  </navMap>\<newline>'' @
     ''</ncx>''\<close>

text \<open>
  What \<open>saveAs\<close> receives: the archive and the file name. \<open>Date.now()\<close> is read twice,
  at line 264 and at line 286; \<open>now1\<close> and \<open>now2\<close> are the two readings of the clock.
  The parameter \<open>title\<close> of the source is called \<open>storyTitle\<close> here, as at its call in
  line 77.
\<close>

record saved =
  archive :: jszip
  filename :: string

definition createEpub :: "nat \<Rightarrow> nat \<Rightarrow> string \<Rightarrow> chapterContent list \<Rightarrow> saved" where
  "createEpub now1 now2 storyTitle chapters =
     (let zip1 = zip_file ''mimetype'' ''application/epub+zip'' (Some STORE) [];
          zip2 = zip_folder ''META-INF'' zip1;
          zip3 = zip_file (''META-INF/'' @ ''container.xml'') container_xml None zip2;
          zip4 = zip_folder ''OEBPS'' zip3;
          zip5 = forEach_chapter 0 chapters zip4;
          chapterManifest = join ''\<newline>'' (map_index (\<lambda>_ i. manifest_item i) chapters);
          chapterSpine = join ''\<newline>'' (map_index (\<lambda>_ i. spine_ref i) chapters);
          zip6 = zip_file (''OEBPS/'' @ ''content.opf'')
                   (content_opf now1 storyTitle chapterManifest chapterSpine) None zip5;
          navPoints = join ''\<newline>'' (map_index navPoint chapters);
          zip7 = zip_file (''OEBPS/'' @ ''toc.ncx'') (toc_ncx now2 storyTitle navPoints) None zip6
      in \<lparr>archive = zip7, filename = sanitizeFilename storyTitle @ ''.epub''\<rparr>)"

text \<open>
  For stating what the archive holds: the name of the document of chapter number \<open>k\<close>
  (counted from 1), the entry that line 236 writes for the chapter at index \<open>i\<close>
  (counted from 0), and the entry of a given name (\<open>zip.file(name)\<close>).
\<close>

definition chapterFile :: "nat \<Rightarrow> string" where
  "chapterFile k = ''OEBPS/'' @ ''chapter'' @ show_nat k @ ''.xhtml''"

definition chapterEntry :: "chapterContent \<Rightarrow> nat \<Rightarrow> zipEntry" where
  "chapterEntry chapter i =
     \<lparr>entryName = chapterFile (i + 1), entryData = chapter_xhtml chapter, entryDir = False,
      entryCompression = None\<rparr>"

definition entryNamed :: "jszip \<Rightarrow> string \<Rightarrow> zipEntry option" where
  "entryNamed z nm = find (\<lambda>e. entryName e = nm) z"

definition dataNamed :: "jszip \<Rightarrow> string \<Rightarrow> string option" where
  "dataNamed z nm = map_option entryData (entryNamed z nm)"

text \<open>The four entries written before the chapters (lines 219-231).\<close>

definition fixedEntries :: jszip where
  "fixedEntries =
     [\<lparr>entryName = ''mimetype'', entryData = ''application/epub+zip'', entryDir = False,
       entryCompression = Some STORE\<rparr>,
      \<lparr>entryName = ''META-INF/'', entryData = [], entryDir = True,
       entryCompression = Some STORE\<rparr>,
      \<lparr>entryName = ''META-INF/container.xml'', entryData = container_xml, entryDir = False,
       entryCompression = None\<rparr>,
      \<lparr>entryName = ''OEBPS/'', entryData = [], entryDir = True,
       entryCompression = Some STORE\<rparr>]"

text \<open>The decimal digits.\<close>

definition isDigit :: "char \<Rightarrow> bool" where
  "isDigit c = (48 \<le> code c \<and> code c \<le> 57)"

section \<open>The project title (app.js, line 76)\<close>

text \<open>
  \<open>chapterContents[0].title.split(" - ")[0] || "Literotica Story"\<close>. The handler has
  thrown before this line when no chapter was found; on an empty array the line itself
  would raise a \<open>TypeError\<close>.
\<close>

definition undefined_title_message :: string where
  "undefined_title_message =
     ''Cannot read properties of undefined (reading '' @ [char_of (39::nat)] @ ''title'' @
     [char_of (39::nat)] @ '')''"

definition storyTitle :: "chapterContent list \<Rightarrow> js_error + string" where
  "storyTitle chapterContents =
     (case chapterContents of
        [] \<Rightarrow> Inl (TypeError undefined_title_message)
      | first # _ \<Rightarrow>
          (case split (title first) '' - '' of
             [] \<Rightarrow> Inr ''Literotica Story''
           | seg # _ \<Rightarrow> Inr (if seg = [] then ''Literotica Story'' else seg)))"

section \<open>Reference notions for the properties\<close>

text \<open>
  What the properties below compare the program with: the entity that stands for a
  code unit in XML text; the code units \<open>A-Z\<close>, \<open>a-z\<close>, \<open>0-9\<close>; and the first segment
  of a text cut at a separator: the text before the first occurrence of the separator, or
  the whole text when the separator does not occur.
\<close>

definition xmlEntity :: "char \<Rightarrow> string" where
  \<open>xmlEntity c =
     (if c = CHR ''&'' then ''&amp;''
      else if c = CHR ''<'' then ''&lt;''
      else if c = CHR ''>'' then ''&gt;''
      else if c = CHR 0x22 then ''&quot;''
      else if c = CHR 0x27 then ''&apos;''
      else [c])\<close>

definition isAlnum :: "char \<Rightarrow> bool" where
  "isAlnum c =
     ((65 \<le> code c \<and> code c \<le> 90) \<or> (97 \<le> code c \<and> code c \<le> 122) \<or>
      (48 \<le> code c \<and> code c \<le> 57))"

definition firstSegmentOf :: "string \<Rightarrow> string \<Rightarrow> string \<Rightarrow> bool" where
  "firstSegmentOf sep s seg =
     ((seg = s \<and> \<not> sublist sep s) \<or>
      (prefix (seg @ sep) s \<and> \<not> sublist sep (butlast (seg @ sep))))"

text \<open>
  The selectors of \<open>fetchChapterContent\<close> as an ordered chain with the first match along
  it, and the message of the error thrown when none matches; an absolute URL (a scheme, then
  a colon); what \<open>fetchChapters\<close> makes of a link target, and when a chapter reference
  belongs to a link; and fixtures: the state of a freshly loaded page, a transport that
  always answers with status 200 and a body of 100 code units, and a parser whose document
  answers one selector with the given elements and every other selector with none.
\<close>

definition contentSelectors :: "string list" where
  "contentSelectors = [''.aa_ht'', ''div.panel article'', ''.b-story-body-x'']"

fun firstMatch :: "document \<Rightarrow> string list \<Rightarrow> element option" where
  "firstMatch doc [] = None"
| "firstMatch doc (sel # sels) =
     (case querySelector doc sel of Some d \<Rightarrow> Some d | None \<Rightarrow> firstMatch doc sels)"

definition notFoundMessage :: "nat \<Rightarrow> nat \<Rightarrow> string" where
  "notFoundMessage chapterNum totalChapters =
     ''Failed to fetch chapter '' @ show_nat chapterNum @ ''/'' @ show_nat totalChapters @
     '': Could not find story content for chapter '' @ show_nat chapterNum"






definition initialWorld :: world where
  "initialWorld = \<lparr>currentProxyIndex = 0, requests = [], slept = 0\<rparr>"

definition okTransport :: transport where
  "okTransport n u = Response 200 (BodyText (replicate 100 CHR ''x''))"

definition pageWith :: "string \<Rightarrow> element list \<Rightarrow> string \<Rightarrow> document" where
  "pageWith sel els html = (\<lambda>q. if q = sel then els else [])"

text \<open>
  Readers of the package document and of the navigation map, for saying what these two
  hold. \<open>markup d\<close> lists the tags of \<open>d\<close> from left to right, each with the text that
  follows it up to the next tag: a tag runs from a \<open><\<close> to the next \<open>>\<close>, and its name
  is what stands before its first blank. \<open>elems nm d\<close> are the tags named \<open>nm\<close> with the
  text after them, \<open>tagsNamed nm d\<close> the tags alone, and \<open>attr nm tg\<close> is the value of the
  attribute \<open>nm\<close> of the tag \<open>tg\<close>, if it has one. The manifest is the list of the \<open>id\<close>
  and the \<open>href\<close> of the \<open>item\<close> tags, the spine the list of the \<open>idref\<close> of the
  \<open>itemref\<close> tags; the navigation points are the \<open>id\<close> and the \<open>playOrder\<close> of the
  \<open>navPoint\<close> tags, their targets the \<open>src\<close> of the \<open>content\<close> tags, and the labels
  the texts of the \<open>text\<close> elements (the one of \<open>docTitle\<close> first).
\<close>

definition untilChar :: "char \<Rightarrow> string \<Rightarrow> string" where
  "untilChar c s = takeWhile (\<lambda>x. x \<noteq> c) s"

definition afterChar :: "char \<Rightarrow> string \<Rightarrow> string" where
  "afterChar c s = drop 1 (dropWhile (\<lambda>x. x \<noteq> c) s)"

function markup :: "string \<Rightarrow> (string \<times> string) list" where
  "markup [] = []"
| "markup (c # cs) =
     (if c = CHR ''<'' then
        (untilChar CHR ''>'' cs, untilChar CHR ''<'' (afterChar CHR ''>'' cs)) #
        markup (afterChar CHR ''>'' cs)
      else markup cs)"
  by pat_completeness auto

termination
proof (relation "measure length")
  fix c :: char and cs :: string
  have "length (afterChar CHR ''>'' cs) \<le> length cs"
    unfolding afterChar_def using length_dropWhile_le [of "\<lambda>x. x \<noteq> CHR ''>''" cs] by simp
  then show "(afterChar CHR ''>'' cs, c # cs) \<in> measure length"
    by simp
qed simp_all

declare markup.simps(2) [simp del]

definition tagName :: "string \<Rightarrow> string" where
  "tagName tg = untilChar CHR '' '' tg"

definition elems :: "string \<Rightarrow> string \<Rightarrow> (string \<times> string) list" where
  "elems nm d = filter (\<lambda>e. tagName (fst e) = nm) (markup d)"

fun afterFirst :: "string \<Rightarrow> string \<Rightarrow> string option" where
  "afterFirst pat [] = (if pat = [] then Some [] else None)"
| "afterFirst pat (x # xs) =
     (if prefix pat (x # xs) then Some (drop (length pat) (x # xs)) else afterFirst pat xs)"

definition attr :: "string \<Rightarrow> string \<Rightarrow> string option" where
  "attr nm tg = map_option (untilChar CHR 0x22) (afterFirst ('' '' @ nm @ [CHR ''='', CHR 0x22]) tg)"

definition tagsNamed :: "string \<Rightarrow> string \<Rightarrow> string list" where
  "tagsNamed nm d = map fst (elems nm d)"

definition manifestOf :: "string \<Rightarrow> (string option \<times> string option) list" where
  "manifestOf d = map (\<lambda>tg. (attr ''id'' tg, attr ''href'' tg)) (tagsNamed ''item'' d)"

definition spineOf :: "string \<Rightarrow> string option list" where
  "spineOf d = map (attr ''idref'') (tagsNamed ''itemref'' d)"

definition navPointsOf :: "string \<Rightarrow> (string option \<times> string option) list" where
  "navPointsOf d = map (\<lambda>tg. (attr ''id'' tg, attr ''playOrder'' tg)) (tagsNamed ''navPoint'' d)"

definition navTargetsOf :: "string \<Rightarrow> string option list" where
  "navTargetsOf d = map (attr ''src'') (tagsNamed ''content'' d)"

definition navLabelsOf :: "string \<Rightarrow> string list" where
  "navLabelsOf d = map snd (elems ''text'' d)"

text \<open>
  What the three replacements of \<open>fetchChapterContent\<close> do, said on the text alone.
  \<open>startsWithCI s pat\<close>: the text \<open>s\<close> begins with \<open>pat\<close>, letters compared without case.
  \<open>afterFirstCI pat s\<close>: the text after the first occurrence of \<open>pat\<close> in \<open>s\<close>, if there
  is one. \<open>opensBlock tag s\<close>: \<open>s\<close> begins with \<open><tag\<close> and no word character follows.
  \<open>stripBlocks tag s\<close> reads \<open>s\<close> from the left: where a block opens and a closing
  \<open></tag>\<close> follows somewhere, everything through the first such closing tag is dropped;
  every other code unit is kept. \<open>containsCI s pat\<close>: \<open>pat\<close> occurs in \<open>s\<close>.
  \<open>prevAfter\<close>, \<open>untilClose\<close> and \<open>lowerTag\<close> serve the proof that the patterns do this:
  the code unit before the cursor once some text has been consumed, the part of a block
  pattern after the opening tag's attributes, and a tag name that ends in a lower-case letter.
\<close>

fun startsWithCI :: "string \<Rightarrow> string \<Rightarrow> bool" where
  "startsWithCI s [] = True"
| "startsWithCI [] (c # cs) = False"
| "startsWithCI (x # xs) (c # cs) =
     (canonicalize True x = canonicalize True c \<and> startsWithCI xs cs)"

declare startsWithCI.simps [simp del]

fun afterFirstCI :: "string \<Rightarrow> string \<Rightarrow> string option" where
  "afterFirstCI pat [] = (if pat = [] then Some [] else None)"
| "afterFirstCI pat (x # xs) =
     (if startsWithCI (x # xs) pat then Some (drop (length pat) (x # xs))
      else afterFirstCI pat xs)"

definition opensBlock :: "string \<Rightarrow> string \<Rightarrow> bool" where
  "opensBlock tag s =
     (startsWithCI s (''<'' @ tag) \<and> \<not> wordAt (drop (length (''<'' @ tag)) s))"

function stripBlocks :: "string \<Rightarrow> string \<Rightarrow> string" where
  "stripBlocks tag [] = []"
| "stripBlocks tag (x # xs) =
     (if opensBlock tag (x # xs) then
        (case afterFirstCI (''</'' @ tag @ ''>'') (drop (length (''<'' @ tag)) (x # xs)) of
           Some rest \<Rightarrow> stripBlocks tag rest
         | None \<Rightarrow> x # stripBlocks tag xs)
      else x # stripBlocks tag xs)"
  by pat_completeness auto

termination
proof (relation "measure (\<lambda>(tag, s). length s)")
  have len: "afterFirstCI pat t = Some r \<Longrightarrow> length r \<le> length t" for pat t r
    by (induction t) (auto split: if_splits)
  fix tag :: string and x xs x2
  assume "afterFirstCI (''</'' @ tag @ ''>'') (drop (length (''<'' @ tag)) (x # xs)) = Some x2"
  from len [OF this] show "((tag, x2), tag, x # xs) \<in> measure (\<lambda>(tag, s). length s)"
    by simp
qed simp_all

declare stripBlocks.simps(2) [simp del]

definition prevAfter :: "char option \<Rightarrow> string \<Rightarrow> char option" where
  "prevAfter p c = (if c = [] then p else Some (last c))"

definition untilClose :: "string \<Rightarrow> regex" where
  "untilClose cl =
     Seq (Star (seqs [NegLook (lit cl), Chr CHR ''<'', Star notLt])) (Seq (lit cl) Eps)"

definition lowerTag :: "string \<Rightarrow> bool" where
  "lowerTag tag = (tag \<noteq> [] \<and> 97 \<le> code (last tag) \<and> code (last tag) \<le> 122)"

definition containsCI :: "string \<Rightarrow> string \<Rightarrow> bool" where
  "containsCI s pat = (afterFirstCI pat s \<noteq> None)"

section \<open>Properties of fetchWithRetry\<close>

lemma upt_0_3: "[0..<3] = [0, 1, 2]"
  by code_simp


lemma length_CORS_PROXIES: "length CORS_PROXIES = 3"
  by (simp add: CORS_PROXIES_def)









section \<open>Properties of createEpub\<close>

subsection \<open>Decimal numerals\<close>

lemma show_nat_nonempty: "show_nat n \<noteq> []"
  by (subst show_nat.simps) simp

lemma digit_char_inj: "a < 10 \<Longrightarrow> b < 10 \<Longrightarrow> digit_char a = digit_char b \<Longrightarrow> a = b"
  by (simp add: digit_char_def)

lemma show_nat_inj: "show_nat n = show_nat m \<Longrightarrow> n = m"
proof (induction n arbitrary: m rule: show_nat.induct)
  case (1 n)
  show ?case
  proof (cases "n < 10")
    case small: True
    show ?thesis
    proof (cases "m < 10")
      case True
      with small "1.prems" show ?thesis
        by (simp add: show_nat.simps [of n] show_nat.simps [of m] digit_char_inj)
    next
      case False
      with small "1.prems" show_nat_nonempty [of "m div 10"] show ?thesis
        by (simp add: show_nat.simps [of n] show_nat.simps [of m])
    qed
  next
    case big: False
    show ?thesis
    proof (cases "m < 10")
      case True
      with big "1.prems" show_nat_nonempty [of "n div 10"] show ?thesis
        by (simp add: show_nat.simps [of n] show_nat.simps [of m])
    next
      case False
      with big "1.prems" have eq: "show_nat (n div 10) = show_nat (m div 10)"
        and d: "digit_char (n mod 10) = digit_char (m mod 10)"
        by (simp_all add: show_nat.simps [of n] show_nat.simps [of m])
      from "1.IH" [OF big eq] have "n div 10 = m div 10" .
      moreover from d have "n mod 10 = m mod 10"
        by (intro digit_char_inj) simp_all
      ultimately show ?thesis
        by (metis div_mult_mod_eq)
    qed
  qed
qed

subsection \<open>The archive writer\<close>

lemma zip_file_fresh:
  "nm \<notin> set (map entryName z) \<Longrightarrow> dat \<noteq> [] \<Longrightarrow>
   zip_file nm dat opt z =
     z @ [\<lparr>entryName = nm, entryData = dat, entryDir = False, entryCompression = opt\<rparr>]"
  by (simp add: zip_file_def)

lemma zip_folder_fresh:
  "(nm @ ''/'') \<notin> set (map entryName z) \<Longrightarrow>
   zip_folder nm z =
     z @ [\<lparr>entryName = nm @ ''/'', entryData = [], entryDir = True,
           entryCompression = Some STORE\<rparr>]"
  by (simp add: zip_folder_def)

lemma templates_nonempty:
  "container_xml \<noteq> []" "chapter_xhtml c \<noteq> []" "content_opf now t m sp \<noteq> []"
  "toc_ncx now t nv \<noteq> []"
  by (simp_all add: container_xml_def chapter_xhtml_def content_opf_def toc_ncx_def)

lemma chapterFile_inj: "chapterFile a = chapterFile b \<Longrightarrow> a = b"
  by (simp add: chapterFile_def show_nat_inj)

lemma forEach_chapter_fresh:
  "\<forall>k>i. chapterFile k \<notin> set (map entryName z) \<Longrightarrow>
   forEach_chapter i cs z = z @ map (\<lambda>j. chapterEntry (cs ! j) (i + j)) [0..<length cs]"
proof (induction cs arbitrary: i z)
  case Nil
  then show ?case by simp
next
  case (Cons c cs)
  let ?e = "chapterEntry c i"
  have fresh: "chapterFile (i + 1) \<notin> set (map entryName z)"
    using Cons.prems by simp
  have step: "zip_file (''OEBPS/'' @ ''chapter'' @ show_nat (i + 1) @ ''.xhtml'') (chapter_xhtml c) None z = z @ [?e]"
    using fresh zip_file_fresh [of "chapterFile (i + 1)" z "chapter_xhtml c" None]
    by (simp add: chapterFile_def chapterEntry_def templates_nonempty)
  have next_fresh: "\<forall>k>Suc i. chapterFile k \<notin> set (map entryName (z @ [?e]))"
  proof (intro allI impI)
    fix k assume k: "Suc i < k"
    have "chapterFile k \<noteq> chapterFile (Suc i)"
      using k chapterFile_inj [of k "Suc i"] by auto
    moreover have "chapterFile k \<notin> set (map entryName z)"
      using Cons.prems k by simp
    ultimately show "chapterFile k \<notin> set (map entryName (z @ [?e]))"
      by (simp add: chapterEntry_def)
  qed
  have shift: "map (\<lambda>j. chapterEntry ((c # cs) ! j) (i + j)) [0..<length (c # cs)] =
      ?e # map (\<lambda>j. chapterEntry (cs ! j) (Suc i + j)) [0..<length cs]"
    by (simp add: upt_conv_Cons map_Suc_upt [symmetric] del: upt_Suc)
  show ?case
    by (simp only: forEach_chapter.simps step Cons.IH [OF next_fresh] shift) simp
qed

lemma map_index_nth: "map_index f xs = map (\<lambda>i. f (xs ! i) i) [0..<length xs]"
  by (rule nth_equalityI) (simp_all add: map_index_def)


lemma chapterFile_not_fixed:
  "chapterFile k \<noteq> ''mimetype''" "chapterFile k \<noteq> ''META-INF/''"
  "chapterFile k \<noteq> ''META-INF/container.xml''" "chapterFile k \<noteq> ''OEBPS/''"
  "chapterFile k \<noteq> ''OEBPS/content.opf''" "chapterFile k \<noteq> ''OEBPS/toc.ncx''"
  by (simp_all add: chapterFile_def)

lemma createEpub_archive:
  "archive (createEpub now1 now2 t cs) =
     fixedEntries @ map (\<lambda>j. chapterEntry (cs ! j) j) [0..<length cs] @
     [\<lparr>entryName = ''OEBPS/content.opf'',
       entryData = content_opf now1 t (join ''\<newline>'' (map manifest_item [0..<length cs]))
                     (join ''\<newline>'' (map spine_ref [0..<length cs])),
       entryDir = False, entryCompression = None\<rparr>,
      \<lparr>entryName = ''OEBPS/toc.ncx'',
       entryData = toc_ncx now2 t (join ''\<newline>'' (map (\<lambda>i. navPoint (cs ! i) i) [0..<length cs])),
       entryDir = False, entryCompression = None\<rparr>]"
proof -
  have z4: "zip_folder ''OEBPS''
      (zip_file (''META-INF/'' @ ''container.xml'') container_xml None
        (zip_folder ''META-INF'' (zip_file ''mimetype'' ''application/epub+zip'' (Some STORE) [])))
      = fixedEntries"
    by (simp add: zip_file_def zip_folder_def fixedEntries_def templates_nonempty)
  have fresh: "\<forall>k>0. chapterFile k \<notin> set (map entryName fixedEntries)"
    by (simp add: fixedEntries_def chapterFile_not_fixed)
  have z5: "forEach_chapter 0 cs fixedEntries =
      fixedEntries @ map (\<lambda>j. chapterEntry (cs ! j) j) [0..<length cs]"
    using forEach_chapter_fresh [OF fresh, of cs] by simp
  let ?z5 = "fixedEntries @ map (\<lambda>j. chapterEntry (cs ! j) j) [0..<length cs]"
  have opf_fresh: "''OEBPS/content.opf'' \<notin> set (map entryName ?z5)"
    by (auto simp add: fixedEntries_def chapterEntry_def chapterFile_not_fixed [THEN not_sym])
  have z6: "zip_file (''OEBPS/'' @ ''content.opf'') (content_opf now1 t m sp) None ?z5 =
      ?z5 @ [\<lparr>entryName = ''OEBPS/content.opf'', entryData = content_opf now1 t m sp,
              entryDir = False, entryCompression = None\<rparr>]" for m sp
    using zip_file_fresh [OF opf_fresh templates_nonempty(3)] by simp
  let ?z6 = "\<lambda>d. ?z5 @ [\<lparr>entryName = ''OEBPS/content.opf'', entryData = d, entryDir = False,
              entryCompression = None\<rparr>]"
  have ncx_fresh: "''OEBPS/toc.ncx'' \<notin> set (map entryName (?z6 d))" for d
    by (auto simp add: fixedEntries_def chapterEntry_def chapterFile_not_fixed [THEN not_sym])
  have z7: "zip_file (''OEBPS/'' @ ''toc.ncx'') (toc_ncx now2 t nv) None (?z6 d) =
      ?z6 d @ [\<lparr>entryName = ''OEBPS/toc.ncx'', entryData = toc_ncx now2 t nv,
              entryDir = False, entryCompression = None\<rparr>]" for d nv
    using zip_file_fresh [OF ncx_fresh templates_nonempty(4)] by simp
  show ?thesis
    unfolding createEpub_def Let_def z4 z5 map_index_nth z6 z7
    by simp
qed

lemma isDigit_digit_char: "d < 10 \<Longrightarrow> isDigit (digit_char d)"
  by (simp add: isDigit_def digit_char_def code_def)

lemma show_nat_digits: "\<forall>c\<in>set (show_nat n). isDigit c"
proof (induction n rule: show_nat.induct)
  case (1 n)
  show ?case
  proof (cases "n < 10")
    case True
    then show ?thesis by (simp add: show_nat.simps [of n] isDigit_digit_char)
  next
    case False
    with "1.IH" show ?thesis
      by (simp add: show_nat.simps [of n] isDigit_digit_char)
  qed
qed

lemma find_distinct_nth:
  "distinct (map f xs) \<Longrightarrow> i < length xs \<Longrightarrow> find (\<lambda>e. f e = f (xs ! i)) xs = Some (xs ! i)"
proof (induction xs arbitrary: i)
  case Nil
  then show ?case by simp
next
  case (Cons x xs)
  show ?case
  proof (cases i)
    case 0
    then show ?thesis by simp
  next
    case (Suc j)
    with Cons.prems have "f x \<noteq> f (xs ! j)" by auto
    with Cons Suc show ?thesis by auto
  qed
qed

lemma names_archive:
  "map entryName (archive (createEpub now1 now2 t cs)) =
     [''mimetype'', ''META-INF/'', ''META-INF/container.xml'', ''OEBPS/''] @
     map chapterFile [1..<Suc (length cs)] @ [''OEBPS/content.opf'', ''OEBPS/toc.ncx'']"
proof -
  have "map (\<lambda>j. chapterFile (Suc j)) [0..<length cs] = map chapterFile [1..<Suc (length cs)]"
    by (simp add: map_Suc_upt [symmetric] del: upt_Suc)
  then show ?thesis
    by (simp add: createEpub_archive fixedEntries_def chapterEntry_def o_def del: upt_Suc)
qed

lemma distinct_names_archive: "distinct (map entryName (archive (createEpub now1 now2 t cs)))"
proof -
  have "distinct (map chapterFile [1..<Suc (length cs)])"
    by (simp add: distinct_map inj_on_def chapterFile_inj del: upt_Suc)
  then show ?thesis
    unfolding names_archive
    by (auto simp add: chapterFile_not_fixed chapterFile_not_fixed [THEN not_sym] simp del: upt_Suc)
qed

lemma length_archive: "length (archive (createEpub now1 now2 t cs)) = length cs + 6"
  by (simp add: createEpub_archive fixedEntries_def)

lemma nth_archive_chapter:
  "i < length cs \<Longrightarrow> archive (createEpub now1 now2 t cs) ! (4 + i) = chapterEntry (cs ! i) i"
  by (simp add: createEpub_archive fixedEntries_def nth_append del: upt_Suc)

lemma nth_archive_opf:
  "archive (createEpub now1 now2 t cs) ! (4 + length cs) =
     \<lparr>entryName = ''OEBPS/content.opf'',
      entryData = content_opf now1 t (join ''\<newline>'' (map manifest_item [0..<length cs]))
                    (join ''\<newline>'' (map spine_ref [0..<length cs])),
      entryDir = False, entryCompression = None\<rparr>"
  by (simp add: createEpub_archive fixedEntries_def nth_append del: upt_Suc)

lemma nth_archive_ncx:
  "archive (createEpub now1 now2 t cs) ! (5 + length cs) =
     \<lparr>entryName = ''OEBPS/toc.ncx'',
      entryData = toc_ncx now2 t
                    (join ''\<newline>'' (map (\<lambda>i. navPoint (cs ! i) i) [0..<length cs])),
      entryDir = False, entryCompression = None\<rparr>"
  by (simp add: createEpub_archive fixedEntries_def nth_append del: upt_Suc)

lemma entryNamed_chapter:
  "i < length cs \<Longrightarrow>
   entryNamed (archive (createEpub now1 now2 t cs)) (chapterFile (i + 1)) =
     Some \<lparr>entryName = chapterFile (i + 1), entryData = chapter_xhtml (cs ! i),
           entryDir = False, entryCompression = None\<rparr>"
  using find_distinct_nth [OF distinct_names_archive, of "4 + i" now1 now2 t cs]
  by (simp add: entryNamed_def nth_archive_chapter chapterEntry_def length_archive)

lemma entryNamed_opf:
  "entryNamed (archive (createEpub now1 now2 t cs)) ''OEBPS/content.opf'' =
     Some \<lparr>entryName = ''OEBPS/content.opf'',
           entryData = content_opf now1 t (join ''\<newline>'' (map manifest_item [0..<length cs]))
                         (join ''\<newline>'' (map spine_ref [0..<length cs])),
           entryDir = False, entryCompression = None\<rparr>"
  using find_distinct_nth [OF distinct_names_archive, of "4 + length cs" now1 now2 t cs]
  by (simp add: entryNamed_def nth_archive_opf length_archive)

lemma entryNamed_ncx:
  "entryNamed (archive (createEpub now1 now2 t cs)) ''OEBPS/toc.ncx'' =
     Some \<lparr>entryName = ''OEBPS/toc.ncx'',
           entryData = toc_ncx now2 t
                         (join ''\<newline>'' (map (\<lambda>i. navPoint (cs ! i) i) [0..<length cs])),
           entryDir = False, entryCompression = None\<rparr>"
  using find_distinct_nth [OF distinct_names_archive, of "5 + length cs" now1 now2 t cs]
  by (simp add: entryNamed_def nth_archive_ncx length_archive)

text \<open>
  C4: whatever the title and the chapters, the first entry of the archive is named
  \<open>mimetype\<close>, holds the text \<open>application/epub+zip\<close> and is written with the
  compression \<open>STORE\<close>.
\<close>

theorem createEpub_mimetype_first:
  "archive (createEpub now1 now2 t cs) \<noteq> [] \<and>
   hd (archive (createEpub now1 now2 t cs)) =
     \<lparr>entryName = ''mimetype'', entryData = ''application/epub+zip'', entryDir = False,
      entryCompression = Some STORE\<rparr>"
  by (simp add: createEpub_archive fixedEntries_def)

lemmas num_eval = show_nat.simps digit_char_def char_of_def bit_Suc_0_iff

section \<open>Properties of the titles and the file name\<close>

subsection \<open>Replacing single code units\<close>

lemma replace_from_Chr:
  "replace_from False (Chr c) rep p s = concat (map (\<lambda>x. if x = c then rep else [x]) s)"
proof (induction s arbitrary: p)
  case Nil
  show ?case by (subst replace_from.simps) simp
next
  case (Cons x xs)
  show ?case
    by (subst replace_from.simps) (simp add: canonicalize_def Cons.IH)
qed

lemma replace_from_NotIn:
  "replace_from ic (NotIn rs) rep p s =
     concat (map (\<lambda>x. if inClass ic rs x then [x] else rep) s)"
proof (induction s arbitrary: p)
  case Nil
  show ?case by (subst replace_from.simps) simp
next
  case (Cons x xs)
  show ?case
    by (subst replace_from.simps) (simp add: Cons.IH)
qed

lemma concat_map_concat_map:
  "concat (map g (concat (map f s))) = concat (map (\<lambda>x. concat (map g (f x))) s)"
  by (induction s) simp_all

lemma apostrophe: "char_of (39::nat) = CHR 0x27"
  by (simp add: char_of_def bit_Suc_0_iff)

lemma escapeXml_entities: "escapeXml s = concat (map xmlEntity s)"
  unfolding escapeXml_def replaceAll_def replace_from_Chr apostrophe concat_map_concat_map
  by (rule arg_cong [where f = concat], rule map_cong [OF refl]) (simp add: xmlEntity_def)

lemma escapeXml_example: \<open>escapeXml ''Foo & "Bar"'' = ''Foo &amp; &quot;Bar&quot;''\<close>
  by (simp add: escapeXml_entities xmlEntity_def)

lemma sublist_trans: "sublist xs ys \<Longrightarrow> sublist ys zs \<Longrightarrow> sublist xs zs"
  by (rule sublist_order.order.trans)

lemma sublist_join: "x \<in> set xs \<Longrightarrow> sublist x (join sep xs)"
proof (induction sep xs rule: join.induct)
  case (1 sep)
  then show ?case by simp
next
  case (2 sep y)
  then show ?case by simp
next
  case (3 sep y z zs)
  show ?case
  proof (cases "x = y")
    case True
    then show ?thesis by simp
  next
    case False
    with 3 have "sublist x (join sep (z # zs))" by simp
    then have "sublist x ((y @ sep) @ join sep (z # zs))"
      by (rule sublist_order.order.trans) (rule sublist_append_leftI)
    then show ?thesis by simp
  qed
qed

lemma chapter_xhtml_title:
  "sublist (''<title>'' @ escapeXml (title c) @ ''</title>'') (chapter_xhtml c)"
  unfolding sublist_def chapter_xhtml_def
  by (rule exI [of _ "''<?xml version=\"1.0\" encoding=\"UTF-8\"?>\<newline><!DOCTYPE html>\<newline><html xmlns=\"http://www.w3.org/1999/xhtml\">\<newline><head>\<newline>  ''"], rule exI) simp

lemma code_less: "code c < 256"
  by (simp add: code_def)

lemma char_of_code: "char_of (code c) = c"
  by (simp add: code_def)

lemma code_char_of: "n < 256 \<Longrightarrow> code (char_of n) = n"
  by (simp add: code_def)

lemma char_of_eq_code: "n < 256 \<Longrightarrow> char_of n = c \<longleftrightarrow> n = code c"
  using code_char_of char_of_code by metis

lemma canonicalize_code:
  "code (canonicalize True c) =
     (if (97 \<le> code c \<and> code c \<le> 122) \<or> (224 \<le> code c \<and> code c \<le> 254 \<and> code c \<noteq> 247)
      then code c - 32 else code c)"
  using code_less [of c] by (simp add: canonicalize_def code_char_of)

lemma canonicalize_eq_iff:
  "canonicalize True a = canonicalize True b \<longleftrightarrow>
   code (canonicalize True a) = code (canonicalize True b)"
  by (simp add: code_def)

lemma alnum_arith:
  "(\<exists>n::nat. ((97 \<le> n \<and> n < 123) \<or> (48 \<le> n \<and> n < 58)) \<and>
      (if 97 \<le> n \<and> n \<le> 122 then n - 32 else n) =
      (if (97 \<le> k \<and> k \<le> 122) \<or> (224 \<le> k \<and> k \<le> 254 \<and> k \<noteq> 247) then k - 32 else k)) \<longleftrightarrow>
   ((65 \<le> k \<and> k \<le> 90) \<or> (97 \<le> k \<and> k \<le> 122) \<or> (48 \<le> k \<and> k \<le> 57))"
  by presburger

lemma inClass_alnum:
  "inClass True [(CHR ''a'', CHR ''z''), (CHR ''0'', CHR ''9'')] x \<longleftrightarrow> isAlnum x"
proof -
  have mem: "set (members [(CHR ''a'', CHR ''z''), (CHR ''0'', CHR ''9'')]) =
      char_of ` ({97..<123::nat} \<union> {48..<58})"
    by (simp add: members_def code_def image_Un del: upt_Suc upt_rec_numeral)
  have "inClass True [(CHR ''a'', CHR ''z''), (CHR ''0'', CHR ''9'')] x \<longleftrightarrow>
      (\<exists>n\<in>{97..<123::nat} \<union> {48..<58}. code (canonicalize True (char_of n)) = code (canonicalize True x))"
    unfolding inClass_def list_ex_iff mem
    by (simp add: canonicalize_eq_iff [symmetric])
  also have "\<dots> \<longleftrightarrow> (\<exists>n\<in>{97..<123::nat} \<union> {48..<58}.
      (if 97 \<le> n \<and> n \<le> 122 then n - 32 else n) = code (canonicalize True x))"
    by (rule bex_cong [OF refl]) (auto simp add: canonicalize_code code_char_of)
  also have "\<dots> \<longleftrightarrow> isAlnum x"
    unfolding canonicalize_code isAlnum_def Bex_def
    using alnum_arith [of "code x"] by (simp add: conj_disj_distribR)
  finally show ?thesis .
qed

lemma sanitizeFilename_map:
  "sanitizeFilename s = map (\<lambda>x. if isAlnum x then lowerChar x else CHR ''_'') s"
proof -
  have u: "lowerChar CHR ''_'' = CHR ''_''"
    by (simp add: lowerChar_def code_def)
  have "concat (map (\<lambda>x. if isAlnum x then [x] else ''_'') s) =
        map (\<lambda>x. if isAlnum x then x else CHR ''_'') s"
    by (induction s) simp_all
  then show ?thesis
    by (simp add: sanitizeFilename_def replaceAll_def replace_from_NotIn inClass_alnum
        toLowerCase_def o_def u if_distrib [of lowerChar] cong: if_cong)
qed

lemma startsWith_prefix: "startsWith s p \<longleftrightarrow> prefix p s"
  by (auto simp add: startsWith_def prefix_def) (metis append_take_drop_id)

lemma not_sublist_butlast: "sep \<noteq> [] \<Longrightarrow> \<not> sublist sep (butlast sep)"
proof
  assume ne: "sep \<noteq> []" and "sublist sep (butlast sep)"
  then obtain ps ss where "butlast sep = ps @ sep @ ss"
    by (auto simp add: sublist_def)
  then have "length (butlast sep) = length (ps @ sep @ ss)"
    by simp
  with ne show False
    by (simp add: length_greater_0_conv [symmetric] del: length_greater_0_conv)
qed

lemma split_from_first:
  "sep \<noteq> [] \<Longrightarrow>
   \<exists>seg rest. split_from sep cur s = (cur @ seg) # rest \<and> firstSegmentOf sep s seg"
proof (induction s arbitrary: cur)
  case Nil
  then show ?case
    by (subst split_from.simps) (simp add: firstSegmentOf_def)
next
  case (Cons x xs)
  show ?case
  proof (cases "prefix sep (x # xs)")
    case True
    with Cons.prems have "split_from sep cur (x # xs) = cur # split_from sep [] (drop (length sep) (x # xs))"
      by (subst split_from.simps) (simp add: startsWith_prefix)
    moreover have "firstSegmentOf sep (x # xs) []"
      using True Cons.prems by (simp add: firstSegmentOf_def not_sublist_butlast)
    ultimately show ?thesis by force
  next
    case False
    then have step: "split_from sep cur (x # xs) = split_from sep (cur @ [x]) xs"
      by (subst split_from.simps) (simp add: startsWith_prefix)
    from Cons.IH [OF Cons.prems, of "cur @ [x]"] obtain seg rest
      where eq: "split_from sep (cur @ [x]) xs = ((cur @ [x]) @ seg) # rest"
        and fs: "firstSegmentOf sep xs seg" by blast
    have "firstSegmentOf sep (x # xs) (x # seg)"
    proof (cases "seg = xs \<and> \<not> sublist sep xs")
      case True
      with False show ?thesis
        by (simp add: firstSegmentOf_def sublist_Cons_right)
    next
      case no: False
      with fs have p: "prefix (seg @ sep) xs" and n: "\<not> sublist sep (butlast (seg @ sep))"
        by (auto simp add: firstSegmentOf_def)
      have ne: "seg @ sep \<noteq> []" using Cons.prems by simp
      have bl: "butlast ((x # seg) @ sep) = x # butlast (seg @ sep)"
        using ne by simp
      have "prefix (butlast (seg @ sep)) xs"
        using p by (meson prefix_order.trans prefixeq_butlast)
      then have "\<not> prefix sep (x # butlast (seg @ sep))"
        using False by (meson Cons_prefix_Cons prefix_order.trans)
      with n have "\<not> sublist sep (butlast ((x # seg) @ sep))"
        by (simp only: bl sublist_Cons_right) simp
      with p show ?thesis
        by (simp add: firstSegmentOf_def)
    qed
    with step eq show ?thesis by force
  qed
qed

lemma storyTitle_first_segment:
  "\<exists>seg. firstSegmentOf '' - '' (title c) seg \<and>
         storyTitle (c # cs) = Inr (if seg = [] then ''Literotica Story'' else seg)"
proof -
  from split_from_first [of "'' - ''" "[]" "title c"] obtain seg rest
    where "split (title c) '' - '' = seg # rest" "firstSegmentOf '' - '' (title c) seg"
    by (auto simp add: split_def)
  then show ?thesis
    by (auto simp add: storyTitle_def)
qed

lemma dataNamed_chapter:
  "i < length cs \<Longrightarrow>
   dataNamed (archive (createEpub now1 now2 t cs)) (chapterFile (i + 1)) =
     Some (chapter_xhtml (cs ! i))"
  using entryNamed_chapter [of i cs now1 now2 t] by (simp add: dataNamed_def)

lemma dataNamed_opf:
  "dataNamed (archive (createEpub now1 now2 t cs)) ''OEBPS/content.opf'' =
     Some (content_opf now1 t (join ''\<newline>'' (map manifest_item [0..<length cs]))
             (join ''\<newline>'' (map spine_ref [0..<length cs])))"
  by (simp add: dataNamed_def entryNamed_opf)

lemma dataNamed_ncx:
  "dataNamed (archive (createEpub now1 now2 t cs)) ''OEBPS/toc.ncx'' =
     Some (toc_ncx now2 t (join ''\<newline>'' (map (\<lambda>i. navPoint (cs ! i) i) [0..<length cs])))"
  by (simp add: dataNamed_def entryNamed_ncx)

lemma chapter_xhtml_h1:
  "sublist (''<h1>'' @ escapeXml (title c) @ ''</h1>'') (chapter_xhtml c)"
  unfolding sublist_def chapter_xhtml_def
  by (rule exI [of _ \<open>''<?xml version="1.0" encoding="UTF-8"?>\<newline><!DOCTYPE html>\<newline><html xmlns="http://www.w3.org/1999/xhtml">\<newline><head>\<newline>  <title>'' @ escapeXml (title c) @ ''</title>\<newline></head>\<newline><body>\<newline>  ''\<close>], rule exI) simp

lemma navPoint_text:
  "sublist (''<text>'' @ escapeXml (title c) @ ''</text>'') (navPoint c i)"
  unfolding sublist_def navPoint_def
  by (rule exI [of _ \<open>''    <navPoint id="chapter'' @ show_nat (i + 1) @ ''" playOrder="'' @ show_nat (i + 1) @ ''">\<newline>      <navLabel>\<newline>        ''\<close>], rule exI) simp

lemma toc_ncx_navPoints: "sublist navs (toc_ncx now t navs)"
  unfolding sublist_def toc_ncx_def
  by (rule exI [of _ \<open>''<?xml version="1.0" encoding="UTF-8"?>\<newline><ncx xmlns="http://www.daisy.org/z3986/2005/ncx/" version="2005-1">\<newline>  <head>\<newline>    <meta name="dtb:uid" content="literotica-'' @ show_nat now @ ''"/>\<newline>    <meta name="dtb:depth" content="1"/>\<newline>  </head>\<newline>  <docTitle>\<newline>    <text>'' @ escapeXml t @ ''</text>\<newline>  </docTitle>\<newline>  <navMap>\<newline>''\<close>], rule exI) simp

lemma toc_ncx_docTitle:
  "sublist (''<docTitle>\<newline>    <text>'' @ escapeXml t @ ''</text>'') (toc_ncx now t navs)"
  unfolding sublist_def toc_ncx_def
  by (rule exI [of _ \<open>''<?xml version="1.0" encoding="UTF-8"?>\<newline><ncx xmlns="http://www.daisy.org/z3986/2005/ncx/" version="2005-1">\<newline>  <head>\<newline>    <meta name="dtb:uid" content="literotica-'' @ show_nat now @ ''"/>\<newline>    <meta name="dtb:depth" content="1"/>\<newline>  </head>\<newline>  ''\<close>], rule exI) simp

lemma content_opf_title:
  "sublist (''<dc:title>'' @ escapeXml t @ ''</dc:title>'') (content_opf now t m sp)"
  unfolding sublist_def content_opf_def
  by (rule exI [of _ \<open>''<?xml version="1.0" encoding="UTF-8"?>\<newline><package xmlns="http://www.idpf.org/2007/opf" version="3.0" unique-identifier="uid">\<newline>  <metadata xmlns:dc="http://purl.org/dc/elements/1.1/">\<newline>    ''\<close>], rule exI) simp

lemma toc_ncx_label:
  assumes "i < length cs"
  shows "sublist (''<text>'' @ escapeXml (title (cs ! i)) @ ''</text>'')
     (toc_ncx now t (join ''\<newline>'' (map (\<lambda>i. navPoint (cs ! i) i) [0..<length cs])))"
proof -
  have "navPoint (cs ! i) i \<in> set (map (\<lambda>i. navPoint (cs ! i) i) [0..<length cs])"
    using assms by (simp del: upt_Suc)
  then have "sublist (navPoint (cs ! i) i) (join ''\<newline>'' (map (\<lambda>i. navPoint (cs ! i) i) [0..<length cs]))"
    by (rule sublist_join)
  then show ?thesis
    by (meson navPoint_text toc_ncx_navPoints sublist_trans)
qed

lemma xmlEntity_no_reserved:
  \<open>c \<in> set (concat (map xmlEntity s)) \<Longrightarrow> c \<notin> set [CHR ''<'', CHR ''>'', CHR 0x22, CHR 0x27]\<close>
  by (induction s) (auto simp add: xmlEntity_def split: if_splits)

text \<open>
  C8: \<open>escapeXml\<close> replaces each of the five reserved characters by its entity and
  leaves every other code unit alone, so its result holds none of \<open><\<close>, \<open>>\<close>, the double
  quote and the apostrophe; the document of every chapter holds the escaped chapter title
  in its \<open>title\<close> and \<open>h1\<close> elements, the navigation map holds it in a \<open>text\<close> label,
  and the package document and the navigation map hold the escaped project title; the
  title \<open>Foo & "Bar"\<close> is escaped to \<open>Foo &amp; &quot;Bar&quot;\<close>.
\<close>

theorem escapeXml_titles:
  \<open>escapeXml s = concat (map xmlEntity s) \<and>
   (\<forall>c\<in>set (escapeXml s). c \<notin> set [CHR ''<'', CHR ''>'', CHR 0x22, CHR 0x27]) \<and>
   (\<forall>i<length cs.
      (\<exists>d. dataNamed (archive (createEpub now1 now2 t cs)) (chapterFile (i + 1)) = Some d \<and>
           sublist (''<title>'' @ concat (map xmlEntity (title (cs ! i))) @ ''</title>'') d \<and>
           sublist (''<h1>'' @ concat (map xmlEntity (title (cs ! i))) @ ''</h1>'') d) \<and>
      (\<exists>d. dataNamed (archive (createEpub now1 now2 t cs)) ''OEBPS/toc.ncx'' = Some d \<and>
           sublist (''<text>'' @ concat (map xmlEntity (title (cs ! i))) @ ''</text>'') d)) \<and>
   (\<exists>d. dataNamed (archive (createEpub now1 now2 t cs)) ''OEBPS/content.opf'' = Some d \<and>
        sublist (''<dc:title>'' @ concat (map xmlEntity t) @ ''</dc:title>'') d) \<and>
   (\<exists>d. dataNamed (archive (createEpub now1 now2 t cs)) ''OEBPS/toc.ncx'' = Some d \<and>
        sublist (''<docTitle>\<newline>    <text>'' @ concat (map xmlEntity t) @ ''</text>'') d) \<and>
   escapeXml ''Foo & "Bar"'' = ''Foo &amp; &quot;Bar&quot;''\<close>
proof -
  have a: "\<forall>c\<in>set (escapeXml s). c \<notin> set [CHR ''<'', CHR ''>'', CHR 0x22, CHR 0x27]"
    using xmlEntity_no_reserved by (simp only: escapeXml_entities) blast
  have b: "\<exists>d. dataNamed (archive (createEpub now1 now2 t cs)) (chapterFile (i + 1)) = Some d \<and>
           sublist (''<title>'' @ concat (map xmlEntity (title (cs ! i))) @ ''</title>'') d \<and>
           sublist (''<h1>'' @ concat (map xmlEntity (title (cs ! i))) @ ''</h1>'') d"
    if "i < length cs" for i
    using dataNamed_chapter [OF that, of now1 now2 t]
      chapter_xhtml_title [of "cs ! i"] chapter_xhtml_h1 [of "cs ! i"]
    by (simp add: escapeXml_entities)
  have c: "\<exists>d. dataNamed (archive (createEpub now1 now2 t cs)) ''OEBPS/toc.ncx'' = Some d \<and>
           sublist (''<text>'' @ concat (map xmlEntity (title (cs ! i))) @ ''</text>'') d"
    if "i < length cs" for i
    using toc_ncx_label [OF that, of now2 t]
    by (simp add: dataNamed_ncx escapeXml_entities)
  have d: "\<exists>d. dataNamed (archive (createEpub now1 now2 t cs)) ''OEBPS/content.opf'' = Some d \<and>
        sublist (''<dc:title>'' @ concat (map xmlEntity t) @ ''</dc:title>'') d"
    using content_opf_title [of t now1] by (simp add: dataNamed_opf escapeXml_entities)
  have e: "\<exists>d. dataNamed (archive (createEpub now1 now2 t cs)) ''OEBPS/toc.ncx'' = Some d \<and>
        sublist (''<docTitle>\<newline>    <text>'' @ concat (map xmlEntity t) @ ''</text>'') d"
    using toc_ncx_docTitle [of t now2] by (simp add: dataNamed_ncx escapeXml_entities)
  show ?thesis
    using escapeXml_entities escapeXml_example a b c d e by blast
qed

theorem escapeXml_titles_witness:
  \<open>escapeXml ''Foo & "Bar"'' = ''Foo &amp; &quot;Bar&quot;'' \<and>
   (\<exists>d. dataNamed (archive (createEpub 1 1 ''Foo & "Bar"''
             [\<lparr>title = ''Foo & "Bar"'', content = ''<p>x</p>''\<rparr>])) ''OEBPS/chapter1.xhtml'' = Some d \<and>
        sublist ''<h1>Foo &amp; &quot;Bar&quot;</h1>'' d) \<and>
   (\<exists>d. dataNamed (archive (createEpub 1 1 ''Foo & "Bar"''
             [\<lparr>title = ''Foo & "Bar"'', content = ''<p>x</p>''\<rparr>])) ''OEBPS/toc.ncx'' = Some d \<and>
        sublist ''<text>Foo &amp; &quot;Bar&quot;</text>'' d)\<close>
proof -
  note T = escapeXml_titles [where s = \<open>''Foo & "Bar"''\<close> and t = \<open>''Foo & "Bar"''\<close>
      and ?now1.0 = 1 and ?now2.0 = 1
      and cs = \<open>[\<lparr>title = ''Foo & "Bar"'', content = ''<p>x</p>''\<rparr>]\<close>]
  have ex: \<open>escapeXml ''Foo & "Bar"'' = ''Foo &amp; &quot;Bar&quot;''\<close>
    by (rule T [THEN conjunct2, THEN conjunct2, THEN conjunct2, THEN conjunct2, THEN conjunct2])
  from T [THEN conjunct2, THEN conjunct2, THEN conjunct1, rule_format, of 0]
  show ?thesis
    using ex by (auto simp add: xmlEntity_def chapterFile_def num_eval)
qed

text \<open>
  C9: for a non-empty chapter list the project title is the first segment of the first
  chapter's title cut at \<open>" - "\<close>, or \<open>Literotica Story\<close> when that segment is empty; the
  file name handed to \<open>saveAs\<close> is the project title with every code unit outside
  \<open>A-Z\<close>, \<open>a-z\<close>, \<open>0-9\<close> replaced by an underscore and the letters lower-cased, followed
  by \<open>.epub\<close>; the title \<open>My Story - Part 1\<close> gives \<open>My Story\<close> and \<open>my_story.epub\<close>.
\<close>

theorem storyTitle_and_filename:
  "(\<exists>seg. firstSegmentOf '' - '' (title c) seg \<and>
          storyTitle (c # cs) = Inr (if seg = [] then ''Literotica Story'' else seg)) \<and>
   filename (createEpub now1 now2 t chs) =
     map (\<lambda>x. if isAlnum x then lowerChar x else CHR ''_'') t @ ''.epub'' \<and>
   storyTitle [\<lparr>title = ''My Story - Part 1'', content = b\<rparr>] = Inr ''My Story'' \<and>
   filename (createEpub now1 now2 ''My Story'' chs) = ''my_story.epub''"
proof -
  have fn: "filename (createEpub now1 now2 t chs) =
     map (\<lambda>x. if isAlnum x then lowerChar x else CHR ''_'') t @ ''.epub''" for t
    by (simp add: createEpub_def Let_def sanitizeFilename_map)
  have ex1: "storyTitle [\<lparr>title = ''My Story - Part 1'', content = b\<rparr>] = Inr ''My Story''"
    by (simp add: storyTitle_def split_def split_from.simps startsWith_def)
  have ex2: "filename (createEpub now1 now2 ''My Story'' chs) = ''my_story.epub''"
    by (simp add: fn isAlnum_def lowerChar_def code_def char_of_def bit_Suc_0_iff)
  show ?thesis
    using storyTitle_first_segment [of c cs] fn [of t] ex1 ex2 by blast
qed

theorem storyTitle_and_filename_witness:
  "storyTitle [\<lparr>title = ''My Story - Part 1'', content = ''<p>Once</p>''\<rparr>] = Inr ''My Story'' \<and>
   filename (createEpub 1 2 ''My Story'' [\<lparr>title = ''My Story - Part 1'', content = ''<p>Once</p>''\<rparr>]) =
     ''my_story.epub'' \<and>
   filename (createEpub 1 2 ''A+b 2'' []) = ''a_b_2.epub''"
  using storyTitle_and_filename [of "\<lparr>title = ''My Story - Part 1'', content = ''<p>Once</p>''\<rparr>" "[]"
      1 2 "''A+b 2''" "[]" "''<p>Once</p>''"]
    storyTitle_and_filename [of "\<lparr>title = ''My Story - Part 1'', content = ''<p>Once</p>''\<rparr>" "[]"
      1 2 "''My Story''" "[\<lparr>title = ''My Story - Part 1'', content = ''<p>Once</p>''\<rparr>]" "''<p>Once</p>''"]
  by (simp add: isAlnum_def lowerChar_def code_def char_of_def bit_Suc_0_iff)

text \<open>
  C10: the identifier of the package document is rendered from the clock reading of line
  264 and the \<open>dtb:uid\<close> of the navigation map from the reading of line 286. When the
  clock reads 1700000000000 at the first and 1700000000001 at the second, the package
  document carries \<open>literotica-1700000000000\<close> and the navigation map
  \<open>literotica-1700000000001\<close>, whatever the title and the chapters.
\<close>

theorem createEpub_identifiers:
  \<open>(\<exists>d. dataNamed (archive (createEpub 1700000000000 1700000000001 t cs)) ''OEBPS/content.opf'' = Some d \<and>
        prefix (''<?xml version="1.0" encoding="UTF-8"?>\<newline><package xmlns="http://www.idpf.org/2007/opf" version="3.0" unique-identifier="uid">\<newline>  <metadata xmlns:dc="http://purl.org/dc/elements/1.1/">\<newline>    <dc:title>'' @
                escapeXml t @
                ''</dc:title>\<newline>    <dc:creator>Literotica Author</dc:creator>\<newline>    <dc:language>en</dc:language>\<newline>    <dc:identifier id="uid">literotica-1700000000000</dc:identifier>'') d) \<and>
   (\<exists>d. dataNamed (archive (createEpub 1700000000000 1700000000001 t cs)) ''OEBPS/toc.ncx'' = Some d \<and>
        prefix ''<?xml version="1.0" encoding="UTF-8"?>\<newline><ncx xmlns="http://www.daisy.org/z3986/2005/ncx/" version="2005-1">\<newline>  <head>\<newline>    <meta name="dtb:uid" content="literotica-1700000000001"/>'' d)\<close>
proof -
  have n1: "show_nat 1700000000000 = ''1700000000000''"
    by (simp add: num_eval)
  have n2: "show_nat 1700000000001 = ''1700000000001''"
    by (simp add: num_eval)
  show ?thesis
    by (simp add: dataNamed_opf dataNamed_ncx content_opf_def toc_ncx_def n1 n2)
qed

section \<open>Properties of the package document and the navigation map\<close>

subsection \<open>Reading markup\<close>

lemma untilChar_simps:
  "untilChar c [] = []"
  "untilChar c (x # xs) = (if x = c then [] else x # untilChar c xs)"
  by (simp_all add: untilChar_def)

lemma afterChar_simps:
  "afterChar c [] = []"
  "afterChar c (x # xs) = (if x = c then xs else afterChar c xs)"
  by (simp_all add: afterChar_def)

lemma untilChar_append: "c \<notin> set s \<Longrightarrow> untilChar c (s @ r) = s @ untilChar c r"
  by (induction s) (auto simp add: untilChar_simps)

lemma afterChar_append: "c \<notin> set s \<Longrightarrow> afterChar c (s @ r) = afterChar c r"
  by (induction s) (auto simp add: afterChar_simps)

lemma afterFirst_append:
  "p \<notin> set s \<Longrightarrow> afterFirst (p # ps) (s @ r) = afterFirst (p # ps) r"
  by (induction s) simp_all

lemma elems_Nil: "elems nm [] = []"
  by (simp add: elems_def)

lemma elems_Cons:
  "elems nm (c # cs) =
     (if c = CHR ''<'' then
        (if tagName (untilChar CHR ''>'' cs) = nm
         then [(untilChar CHR ''>'' cs, untilChar CHR ''<'' (afterChar CHR ''>'' cs))] else []) @
        elems nm (afterChar CHR ''>'' cs)
      else elems nm cs)"
  by (simp add: elems_def markup.simps(2))

lemma elems_append: "CHR ''<'' \<notin> set s \<Longrightarrow> elems nm (s @ r) = elems nm r"
  by (induction s) (auto simp add: elems_Cons)

lemma tagsNamed_Nil: "tagsNamed nm [] = []"
  by (simp add: tagsNamed_def elems_Nil)

lemma tagsNamed_Cons:
  "tagsNamed nm (c # cs) =
     (if c = CHR ''<'' then
        (if tagName (untilChar CHR ''>'' cs) = nm then [untilChar CHR ''>'' cs] else []) @
        tagsNamed nm (afterChar CHR ''>'' cs)
      else tagsNamed nm cs)"
  by (simp add: tagsNamed_def elems_Cons)

lemma tagsNamed_append: "CHR ''<'' \<notin> set s \<Longrightarrow> tagsNamed nm (s @ r) = tagsNamed nm r"
  by (simp add: tagsNamed_def elems_append)

lemma join_scan:
  assumes "\<And>x r. F (f x @ r) = g x @ F r" and "\<And>r. F (CHR ''\<newline>'' # r) = F r"
  shows "F (join ''\<newline>'' (map f xs) @ r) = concat (map g xs) @ F r"
proof (induction xs)
  case Nil
  then show ?case by simp
next
  case (Cons x xs)
  show ?case
  proof (cases xs)
    case Nil
    then show ?thesis by (simp add: assms)
  next
    case (Cons y ys)
    with Cons.IH show ?thesis
      by (simp add: assms)
  qed
qed

lemma show_nat_notin: "\<not> isDigit c \<Longrightarrow> c \<notin> set (show_nat n)"
  using show_nat_digits [of n] by auto

lemma escapeXml_no_lt: "CHR ''<'' \<notin> set (escapeXml s)"
  using xmlEntity_no_reserved [of "CHR ''<''" s] by (auto simp add: escapeXml_entities)

lemmas scan_simps = untilChar_simps afterChar_simps untilChar_append afterChar_append
  tagName_def show_nat_notin escapeXml_no_lt isDigit_def code_def

lemma item_manifest_item:
  \<open>tagsNamed ''item'' (manifest_item i @ r) =
     [''item id="chapter'' @ show_nat (i + 1) @ ''" href="chapter'' @ show_nat (i + 1) @
        ''.xhtml" media-type="application/xhtml+xml"/''] @
     tagsNamed ''item'' r\<close>
  by (simp add: manifest_item_def tagsNamed_Cons scan_simps)

lemma itemref_manifest_item:
  "tagsNamed ''itemref'' (manifest_item i @ r) = [] @ tagsNamed ''itemref'' r"
  by (simp add: manifest_item_def tagsNamed_Cons scan_simps)

lemma item_spine_ref:
  "tagsNamed ''item'' (spine_ref i @ r) = [] @ tagsNamed ''item'' r"
  by (simp add: spine_ref_def tagsNamed_Cons scan_simps)

lemma itemref_spine_ref:
  \<open>tagsNamed ''itemref'' (spine_ref i @ r) =
     [''itemref idref="chapter'' @ show_nat (i + 1) @ ''"/''] @ tagsNamed ''itemref'' r\<close>
  by (simp add: spine_ref_def tagsNamed_Cons scan_simps)

lemma tagsNamed_newline: "tagsNamed nm (CHR ''\<newline>'' # r) = tagsNamed nm r"
  by (simp add: tagsNamed_Cons)

lemma concat_map_Nil: "concat (map (\<lambda>x. []) xs) = []"
  by (induction xs) simp_all

lemma concat_map_single: "concat (map (\<lambda>x. [f x]) xs) = map f xs"
  by (induction xs) simp_all

lemma item_content_opf:
  \<open>tagsNamed ''item'' (content_opf now t (join ''\<newline>'' (map manifest_item xs))
       (join ''\<newline>'' (map spine_ref xs))) =
     ''item id="ncx" href="toc.ncx" media-type="application/x-dtbncx+xml"/'' #
     map (\<lambda>i. ''item id="chapter'' @ show_nat (i + 1) @ ''" href="chapter'' @ show_nat (i + 1) @
        ''.xhtml" media-type="application/xhtml+xml"/'') xs\<close>
  by (simp add: content_opf_def tagsNamed_Cons tagsNamed_Nil tagsNamed_append scan_simps
      join_scan [where F = "tagsNamed ''item''", OF item_manifest_item tagsNamed_newline]
      join_scan [where F = "tagsNamed ''item''", OF item_spine_ref tagsNamed_newline]
      concat_map_Nil concat_map_single)

lemma itemref_content_opf:
  \<open>tagsNamed ''itemref'' (content_opf now t (join ''\<newline>'' (map manifest_item xs))
       (join ''\<newline>'' (map spine_ref xs))) =
     map (\<lambda>i. ''itemref idref="chapter'' @ show_nat (i + 1) @ ''"/'') xs\<close>
  by (simp add: content_opf_def tagsNamed_Cons tagsNamed_Nil tagsNamed_append scan_simps
      join_scan [where F = "tagsNamed ''itemref''", OF itemref_manifest_item tagsNamed_newline]
      join_scan [where F = "tagsNamed ''itemref''", OF itemref_spine_ref tagsNamed_newline]
      concat_map_Nil concat_map_single)

lemmas attr_simps = attr_def afterFirst.simps afterFirst_append untilChar_simps untilChar_append
  show_nat_notin isDigit_def code_def

lemma attr_item:
  \<open>attr ''id'' (''item id="chapter'' @ show_nat k @ ''" href="chapter'' @ show_nat k @
        ''.xhtml" media-type="application/xhtml+xml"/'') =
     Some (''chapter'' @ show_nat k)\<close>
  \<open>attr ''href'' (''item id="chapter'' @ show_nat k @ ''" href="chapter'' @ show_nat k @
        ''.xhtml" media-type="application/xhtml+xml"/'') =
     Some (''chapter'' @ show_nat k @ ''.xhtml'')\<close>
  by (simp_all add: attr_simps)

lemma attr_itemref:
  \<open>attr ''idref'' (''itemref idref="chapter'' @ show_nat k @ ''"/'') = Some (''chapter'' @ show_nat k)\<close>
  by (simp add: attr_simps)

lemma map_upt_Suc: "map (\<lambda>i. f (Suc i)) [0..<n] = map f [1..<Suc n]"
  by (simp add: map_Suc_upt [symmetric] del: upt_Suc)

lemma manifestOf_content_opf:
  "manifestOf (content_opf now t (join ''\<newline>'' (map manifest_item [0..<n]))
       (join ''\<newline>'' (map spine_ref [0..<n]))) =
     (Some ''ncx'', Some ''toc.ncx'') #
     map (\<lambda>k. (Some (''chapter'' @ show_nat k), Some (''chapter'' @ show_nat k @ ''.xhtml'')))
       [1..<Suc n]"
proof -
  have ncx: \<open>attr ''id'' ''item id="ncx" href="toc.ncx" media-type="application/x-dtbncx+xml"/'' = Some ''ncx''\<close>
    \<open>attr ''href'' ''item id="ncx" href="toc.ncx" media-type="application/x-dtbncx+xml"/'' = Some ''toc.ncx''\<close>
    by code_simp+
  have tags: \<open>tagsNamed ''item'' (content_opf now t (join ''\<newline>'' (map manifest_item [0..<n]))
       (join ''\<newline>'' (map spine_ref [0..<n]))) =
     ''item id="ncx" href="toc.ncx" media-type="application/x-dtbncx+xml"/'' #
     map (\<lambda>k. ''item id="chapter'' @ show_nat k @ ''" href="chapter'' @ show_nat k @
        ''.xhtml" media-type="application/xhtml+xml"/'') [1..<Suc n]\<close>
    using item_content_opf [of now t "[0..<n]"]
      map_upt_Suc [of \<open>\<lambda>k. ''item id="chapter'' @ show_nat k @ ''" href="chapter'' @ show_nat k @
        ''.xhtml" media-type="application/xhtml+xml"/''\<close> n]
    by simp
  show ?thesis
    unfolding manifestOf_def tags list.map o_def ncx attr_item map_map ..
qed

lemma spineOf_content_opf:
  "spineOf (content_opf now t (join ''\<newline>'' (map manifest_item [0..<n]))
       (join ''\<newline>'' (map spine_ref [0..<n]))) =
     map (\<lambda>k. Some (''chapter'' @ show_nat k)) [1..<Suc n]"
proof -
  have tags: \<open>tagsNamed ''itemref'' (content_opf now t (join ''\<newline>'' (map manifest_item [0..<n]))
       (join ''\<newline>'' (map spine_ref [0..<n]))) =
     map (\<lambda>k. ''itemref idref="chapter'' @ show_nat k @ ''"/'') [1..<Suc n]\<close>
    using itemref_content_opf [of now t "[0..<n]"]
      map_upt_Suc [of \<open>\<lambda>k. ''itemref idref="chapter'' @ show_nat k @ ''"/''\<close> n] by simp
  show ?thesis
    unfolding spineOf_def tags map_map o_def attr_itemref ..
qed


lemma navPoint_navPoint:
  \<open>tagsNamed ''navPoint'' (navPoint c i @ r) =
     [''navPoint id="chapter'' @ show_nat (i + 1) @ ''" playOrder="'' @ show_nat (i + 1) @ ''"''] @
     tagsNamed ''navPoint'' r\<close>
  by (simp add: navPoint_def tagsNamed_Cons tagsNamed_append scan_simps)

lemma content_navPoint:
  \<open>tagsNamed ''content'' (navPoint c i @ r) =
     [''content src="chapter'' @ show_nat (i + 1) @ ''.xhtml"/''] @ tagsNamed ''content'' r\<close>
  by (simp add: navPoint_def tagsNamed_Cons tagsNamed_append scan_simps)

lemma text_navPoint:
  "elems ''text'' (navPoint c i @ r) = [(''text'', escapeXml (title c))] @ elems ''text'' r"
  by (simp add: navPoint_def elems_Cons elems_append scan_simps)

lemma elems_newline: "elems nm (CHR ''\<newline>'' # r) = elems nm r"
  by (simp add: elems_Cons)

lemma navPoint_toc_ncx:
  \<open>tagsNamed ''navPoint'' (toc_ncx now t (join ''\<newline>'' (map (\<lambda>i. navPoint (cs ! i) i) xs))) =
     map (\<lambda>i. ''navPoint id="chapter'' @ show_nat (i + 1) @ ''" playOrder="'' @
               show_nat (i + 1) @ ''"'') xs\<close>
  by (simp add: toc_ncx_def tagsNamed_Cons tagsNamed_Nil tagsNamed_append scan_simps
      join_scan [where F = "tagsNamed ''navPoint''" and f = "\<lambda>i. navPoint (cs ! i) i",
        OF navPoint_navPoint tagsNamed_newline]
      concat_map_single)

lemma content_toc_ncx:
  \<open>tagsNamed ''content'' (toc_ncx now t (join ''\<newline>'' (map (\<lambda>i. navPoint (cs ! i) i) xs))) =
     map (\<lambda>i. ''content src="chapter'' @ show_nat (i + 1) @ ''.xhtml"/'') xs\<close>
  by (simp add: toc_ncx_def tagsNamed_Cons tagsNamed_Nil tagsNamed_append scan_simps
      join_scan [where F = "tagsNamed ''content''" and f = "\<lambda>i. navPoint (cs ! i) i",
        OF content_navPoint tagsNamed_newline]
      concat_map_single)

lemma text_toc_ncx:
  \<open>elems ''text'' (toc_ncx now t (join ''\<newline>'' (map (\<lambda>i. navPoint (cs ! i) i) xs))) =
     (''text'', escapeXml t) # map (\<lambda>i. (''text'', escapeXml (title (cs ! i)))) xs\<close>
  by (simp add: toc_ncx_def elems_Cons elems_Nil elems_append scan_simps
      join_scan [where F = "elems ''text''" and f = "\<lambda>i. navPoint (cs ! i) i",
        OF text_navPoint elems_newline]
      concat_map_single)

lemma attr_navPoint:
  \<open>attr ''id'' (''navPoint id="chapter'' @ show_nat k @ ''" playOrder="'' @ show_nat k @ ''"'') =
     Some (''chapter'' @ show_nat k)\<close>
  \<open>attr ''playOrder'' (''navPoint id="chapter'' @ show_nat k @ ''" playOrder="'' @ show_nat k @ ''"'') =
     Some (show_nat k)\<close>
  \<open>attr ''src'' (''content src="chapter'' @ show_nat k @ ''.xhtml"/'') =
     Some (''chapter'' @ show_nat k @ ''.xhtml'')\<close>
  by (simp_all add: attr_simps)

lemma navPointsOf_toc_ncx:
  "navPointsOf (toc_ncx now t (join ''\<newline>'' (map (\<lambda>i. navPoint (cs ! i) i) [0..<n]))) =
     map (\<lambda>k. (Some (''chapter'' @ show_nat k), Some (show_nat k))) [1..<Suc n]"
proof -
  have tags: \<open>tagsNamed ''navPoint'' (toc_ncx now t (join ''\<newline>'' (map (\<lambda>i. navPoint (cs ! i) i) [0..<n]))) =
     map (\<lambda>k. ''navPoint id="chapter'' @ show_nat k @ ''" playOrder="'' @ show_nat k @ ''"'') [1..<Suc n]\<close>
    using navPoint_toc_ncx [of now t cs "[0..<n]"]
      map_upt_Suc [of \<open>\<lambda>k. ''navPoint id="chapter'' @ show_nat k @ ''" playOrder="'' @ show_nat k @ ''"''\<close> n]
    by simp
  show ?thesis
    unfolding navPointsOf_def tags map_map o_def attr_navPoint ..
qed

lemma navTargetsOf_toc_ncx:
  "navTargetsOf (toc_ncx now t (join ''\<newline>'' (map (\<lambda>i. navPoint (cs ! i) i) [0..<n]))) =
     map (\<lambda>k. Some (''chapter'' @ show_nat k @ ''.xhtml'')) [1..<Suc n]"
proof -
  have tags: \<open>tagsNamed ''content'' (toc_ncx now t (join ''\<newline>'' (map (\<lambda>i. navPoint (cs ! i) i) [0..<n]))) =
     map (\<lambda>k. ''content src="chapter'' @ show_nat k @ ''.xhtml"/'') [1..<Suc n]\<close>
    using content_toc_ncx [of now t cs "[0..<n]"]
      map_upt_Suc [of \<open>\<lambda>k. ''content src="chapter'' @ show_nat k @ ''.xhtml"/''\<close> n]
    by simp
  show ?thesis
    unfolding navTargetsOf_def tags map_map o_def attr_navPoint ..
qed

lemma navLabelsOf_toc_ncx:
  "navLabelsOf (toc_ncx now t (join ''\<newline>'' (map (\<lambda>i. navPoint (cs ! i) i) [0..<length cs]))) =
     escapeXml t # map (\<lambda>c. escapeXml (title c)) cs"
proof -
  have "map (\<lambda>i. escapeXml (title (cs ! i))) [0..<length cs] = map (\<lambda>c. escapeXml (title c)) cs"
    by (rule nth_equalityI) simp_all
  then show ?thesis
    unfolding navLabelsOf_def text_toc_ncx by (simp add: o_def)
qed

lemma chapter_xhtml_body:
  "suffix (''<h1>'' @ escapeXml (title c) @ ''</h1>\<newline>  '' @ content c @ ''\<newline></body>\<newline></html>'')
     (chapter_xhtml c)"
  unfolding chapter_xhtml_def suffix_def by (simp del: append_assoc add: append_assoc [symmetric])

text \<open>
  C3: for a chapter list of length \<open>N\<close> the archive holds, after the four fixed entries
  and in this order, exactly the documents \<open>chapter1.xhtml\<close> to \<open>chapterN.xhtml\<close>, then
  the package document and the navigation map, under pairwise different names; the
  document numbered \<open>i + 1\<close> is the one of the chapter at index \<open>i\<close> and ends with its
  escaped title as heading and its content. The manifest of the package document lists,
  after the navigation map, one item per chapter, item \<open>k\<close> with the identifier
  \<open>chapterk\<close> and the target \<open>chapterk.xhtml\<close>, for \<open>k\<close> from 1 to \<open>N\<close> in this order;
  its spine lists the references \<open>chapter1\<close> to \<open>chapterN\<close> in this order, which are
  pairwise different. The navigation map holds one navigation point per chapter,
  point \<open>k\<close> with the identifier \<open>chapterk\<close>, the play order \<open>k\<close> and the target
  \<open>chapterk.xhtml\<close>, and its labels are the escaped project title followed by the escaped
  chapter titles in the order of the chapters.
\<close>

theorem createEpub_chapter_structure:
  "map entryName (archive (createEpub now1 now2 t cs)) =
     [''mimetype'', ''META-INF/'', ''META-INF/container.xml'', ''OEBPS/''] @
     map (\<lambda>k. ''OEBPS/chapter'' @ show_nat k @ ''.xhtml'') [1..<Suc (length cs)] @
     [''OEBPS/content.opf'', ''OEBPS/toc.ncx''] \<and>
   distinct (map entryName (archive (createEpub now1 now2 t cs))) \<and>
   (\<forall>i<length cs.
      entryNamed (archive (createEpub now1 now2 t cs)) (''OEBPS/chapter'' @ show_nat (i + 1) @ ''.xhtml'') =
        Some \<lparr>entryName = ''OEBPS/chapter'' @ show_nat (i + 1) @ ''.xhtml'',
              entryData = chapter_xhtml (cs ! i), entryDir = False, entryCompression = None\<rparr> \<and>
      suffix (''<h1>'' @ escapeXml (title (cs ! i)) @ ''</h1>\<newline>  '' @ content (cs ! i) @
              ''\<newline></body>\<newline></html>'') (chapter_xhtml (cs ! i))) \<and>
   map_option manifestOf (dataNamed (archive (createEpub now1 now2 t cs)) ''OEBPS/content.opf'') =
     Some ((Some ''ncx'', Some ''toc.ncx'') #
           map (\<lambda>k. (Some (''chapter'' @ show_nat k), Some (''chapter'' @ show_nat k @ ''.xhtml'')))
             [1..<Suc (length cs)]) \<and>
   map_option spineOf (dataNamed (archive (createEpub now1 now2 t cs)) ''OEBPS/content.opf'') =
     Some (map (\<lambda>k. Some (''chapter'' @ show_nat k)) [1..<Suc (length cs)]) \<and>
   map_option navPointsOf (dataNamed (archive (createEpub now1 now2 t cs)) ''OEBPS/toc.ncx'') =
     Some (map (\<lambda>k. (Some (''chapter'' @ show_nat k), Some (show_nat k))) [1..<Suc (length cs)]) \<and>
   map_option navTargetsOf (dataNamed (archive (createEpub now1 now2 t cs)) ''OEBPS/toc.ncx'') =
     Some (map (\<lambda>k. Some (''chapter'' @ show_nat k @ ''.xhtml'')) [1..<Suc (length cs)]) \<and>
   map_option navLabelsOf (dataNamed (archive (createEpub now1 now2 t cs)) ''OEBPS/toc.ncx'') =
     Some (escapeXml t # map (\<lambda>c. escapeXml (title c)) cs) \<and>
   distinct (map (\<lambda>k. ''chapter'' @ show_nat k) [1..<Suc (length cs)])"
proof (intro conjI allI impI)
  show "map entryName (archive (createEpub now1 now2 t cs)) =
     [''mimetype'', ''META-INF/'', ''META-INF/container.xml'', ''OEBPS/''] @
     map (\<lambda>k. ''OEBPS/chapter'' @ show_nat k @ ''.xhtml'') [1..<Suc (length cs)] @
     [''OEBPS/content.opf'', ''OEBPS/toc.ncx'']"
    using names_archive [of now1 now2 t cs] by (simp add: chapterFile_def del: upt_Suc)
  show "distinct (map entryName (archive (createEpub now1 now2 t cs)))"
    by (rule distinct_names_archive)
  show "distinct (map (\<lambda>k. ''chapter'' @ show_nat k) [1..<Suc (length cs)])"
    by (simp add: distinct_map inj_on_def show_nat_inj del: upt_Suc)
  show "map_option manifestOf (dataNamed (archive (createEpub now1 now2 t cs)) ''OEBPS/content.opf'') =
     Some ((Some ''ncx'', Some ''toc.ncx'') #
           map (\<lambda>k. (Some (''chapter'' @ show_nat k), Some (''chapter'' @ show_nat k @ ''.xhtml'')))
             [1..<Suc (length cs)])"
    unfolding dataNamed_opf option.map manifestOf_content_opf ..
  show "map_option spineOf (dataNamed (archive (createEpub now1 now2 t cs)) ''OEBPS/content.opf'') =
     Some (map (\<lambda>k. Some (''chapter'' @ show_nat k)) [1..<Suc (length cs)])"
    unfolding dataNamed_opf option.map spineOf_content_opf ..
  show "map_option navPointsOf (dataNamed (archive (createEpub now1 now2 t cs)) ''OEBPS/toc.ncx'') =
     Some (map (\<lambda>k. (Some (''chapter'' @ show_nat k), Some (show_nat k))) [1..<Suc (length cs)])"
    unfolding dataNamed_ncx option.map navPointsOf_toc_ncx ..
  show "map_option navTargetsOf (dataNamed (archive (createEpub now1 now2 t cs)) ''OEBPS/toc.ncx'') =
     Some (map (\<lambda>k. Some (''chapter'' @ show_nat k @ ''.xhtml'')) [1..<Suc (length cs)])"
    unfolding dataNamed_ncx option.map navTargetsOf_toc_ncx ..
  show "map_option navLabelsOf (dataNamed (archive (createEpub now1 now2 t cs)) ''OEBPS/toc.ncx'') =
     Some (escapeXml t # map (\<lambda>c. escapeXml (title c)) cs)"
    unfolding dataNamed_ncx option.map navLabelsOf_toc_ncx ..
next
  fix i assume i: "i < length cs"
  show "entryNamed (archive (createEpub now1 now2 t cs)) (''OEBPS/chapter'' @ show_nat (i + 1) @ ''.xhtml'') =
        Some \<lparr>entryName = ''OEBPS/chapter'' @ show_nat (i + 1) @ ''.xhtml'',
              entryData = chapter_xhtml (cs ! i), entryDir = False, entryCompression = None\<rparr>"
    using entryNamed_chapter [OF i, of now1 now2 t] by (simp add: chapterFile_def)
  show "suffix (''<h1>'' @ escapeXml (title (cs ! i)) @ ''</h1>\<newline>  '' @ content (cs ! i) @
              ''\<newline></body>\<newline></html>'') (chapter_xhtml (cs ! i))"
    by (rule chapter_xhtml_body)
qed

lemma upt_1_4: "[1..<Suc 3] = [1, 2, 3]"
  by code_simp

theorem createEpub_chapter_structure_witness:
  \<open>map entryName (archive (createEpub 1 1 ''T''
      [\<lparr>title = ''One'', content = ''<p>a</p>''\<rparr>, \<lparr>title = ''Two'', content = ''<p>b</p>''\<rparr>,
       \<lparr>title = ''Three'', content = ''<p>c</p>''\<rparr>])) =
     [''mimetype'', ''META-INF/'', ''META-INF/container.xml'', ''OEBPS/'',
      ''OEBPS/chapter1.xhtml'', ''OEBPS/chapter2.xhtml'', ''OEBPS/chapter3.xhtml'',
      ''OEBPS/content.opf'', ''OEBPS/toc.ncx''] \<and>
   entryNamed (archive (createEpub 1 1 ''T''
      [\<lparr>title = ''One'', content = ''<p>a</p>''\<rparr>, \<lparr>title = ''Two'', content = ''<p>b</p>''\<rparr>,
       \<lparr>title = ''Three'', content = ''<p>c</p>''\<rparr>])) ''OEBPS/chapter2.xhtml'' =
     Some \<lparr>entryName = ''OEBPS/chapter2.xhtml'',
           entryData =
             ''<?xml version="1.0" encoding="UTF-8"?>\<newline>'' @
                     ''<!DOCTYPE html>\<newline>'' @
                     ''<html xmlns="http://www.w3.org/1999/xhtml">\<newline>'' @
                     ''<head>\<newline>'' @
                     ''  <title>Two</title>\<newline>'' @
                     ''</head>\<newline>'' @
                     ''<body>\<newline>'' @
                     ''  <h1>Two</h1>\<newline>'' @
                     ''  <p>b</p>\<newline>'' @
                     ''</body>\<newline>'' @
                     ''</html>'',
           entryDir = False, entryCompression = None\<rparr> \<and>
   dataNamed (archive (createEpub 1 1 ''T''
      [\<lparr>title = ''One'', content = ''<p>a</p>''\<rparr>, \<lparr>title = ''Two'', content = ''<p>b</p>''\<rparr>,
       \<lparr>title = ''Three'', content = ''<p>c</p>''\<rparr>])) ''OEBPS/content.opf'' =
     Some (''<?xml version="1.0" encoding="UTF-8"?>\<newline>'' @
          ''<package xmlns="http://www.idpf.org/2007/opf" version="3.0" unique-identifier="uid">\<newline>'' @
          ''  <metadata xmlns:dc="http://purl.org/dc/elements/1.1/">\<newline>'' @
          ''    <dc:title>T</dc:title>\<newline>'' @
          ''    <dc:creator>Literotica Author</dc:creator>\<newline>'' @
          ''    <dc:language>en</dc:language>\<newline>'' @
          ''    <dc:identifier id="uid">literotica-1</dc:identifier>\<newline>'' @
          ''  </metadata>\<newline>'' @
          ''  <manifest>\<newline>'' @
          ''    <item id="ncx" href="toc.ncx" media-type="application/x-dtbncx+xml"/>\<newline>'' @
          ''    <item id="chapter1" href="chapter1.xhtml" media-type="application/xhtml+xml"/>\<newline>'' @
          ''    <item id="chapter2" href="chapter2.xhtml" media-type="application/xhtml+xml"/>\<newline>'' @
          ''    <item id="chapter3" href="chapter3.xhtml" media-type="application/xhtml+xml"/>\<newline>'' @
          ''  </manifest>\<newline>'' @
          ''  <spine toc="ncx">\<newline>'' @
          ''    <itemref idref="chapter1"/>\<newline>'' @
          ''    <itemref idref="chapter2"/>\<newline>'' @
          ''    <itemref idref="chapter3"/>\<newline>'' @
          ''  </spine>\<newline>'' @
          ''</package>'') \<and>
   map_option manifestOf (dataNamed (archive (createEpub 1 1 ''T''
      [\<lparr>title = ''One'', content = ''<p>a</p>''\<rparr>, \<lparr>title = ''Two'', content = ''<p>b</p>''\<rparr>,
       \<lparr>title = ''Three'', content = ''<p>c</p>''\<rparr>])) ''OEBPS/content.opf'') =
     Some [(Some ''ncx'', Some ''toc.ncx''), (Some ''chapter1'', Some ''chapter1.xhtml''),
           (Some ''chapter2'', Some ''chapter2.xhtml''), (Some ''chapter3'', Some ''chapter3.xhtml'')] \<and>
   map_option spineOf (dataNamed (archive (createEpub 1 1 ''T''
      [\<lparr>title = ''One'', content = ''<p>a</p>''\<rparr>, \<lparr>title = ''Two'', content = ''<p>b</p>''\<rparr>,
       \<lparr>title = ''Three'', content = ''<p>c</p>''\<rparr>])) ''OEBPS/content.opf'') =
     Some [Some ''chapter1'', Some ''chapter2'', Some ''chapter3''] \<and>
   dataNamed (archive (createEpub 1 1 ''T''
      [\<lparr>title = ''One'', content = ''<p>a</p>''\<rparr>, \<lparr>title = ''Two'', content = ''<p>b</p>''\<rparr>,
       \<lparr>title = ''Three'', content = ''<p>c</p>''\<rparr>])) ''OEBPS/toc.ncx'' =
     Some (''<?xml version="1.0" encoding="UTF-8"?>\<newline>'' @
          ''<ncx xmlns="http://www.daisy.org/z3986/2005/ncx/" version="2005-1">\<newline>'' @
          ''  <head>\<newline>'' @
          ''    <meta name="dtb:uid" content="literotica-1"/>\<newline>'' @
          ''    <meta name="dtb:depth" content="1"/>\<newline>'' @
          ''  </head>\<newline>'' @
          ''  <docTitle>\<newline>'' @
          ''    <text>T</text>\<newline>'' @
          ''  </docTitle>\<newline>'' @
          ''  <navMap>\<newline>'' @
          ''    <navPoint id="chapter1" playOrder="1">\<newline>'' @
          ''      <navLabel>\<newline>'' @
          ''        <text>One</text>\<newline>'' @
          ''      </navLabel>\<newline>'' @
          ''      <content src="chapter1.xhtml"/>\<newline>'' @
          ''    </navPoint>\<newline>'' @
          ''    <navPoint id="chapter2" playOrder="2">\<newline>'' @
          ''      <navLabel>\<newline>'' @
          ''        <text>Two</text>\<newline>'' @
          ''      </navLabel>\<newline>'' @
          ''      <content src="chapter2.xhtml"/>\<newline>'' @
          ''    </navPoint>\<newline>'' @
          ''    <navPoint id="chapter3" playOrder="3">\<newline>'' @
          ''      <navLabel>\<newline>'' @
          ''        <text>Three</text>\<newline>'' @
          ''      </navLabel>\<newline>'' @
          ''      <content src="chapter3.xhtml"/>\<newline>'' @
          ''    </navPoint>\<newline>'' @
          ''  </navMap>\<newline>'' @
          ''</ncx>'') \<and>
   map_option navPointsOf (dataNamed (archive (createEpub 1 1 ''T''
      [\<lparr>title = ''One'', content = ''<p>a</p>''\<rparr>, \<lparr>title = ''Two'', content = ''<p>b</p>''\<rparr>,
       \<lparr>title = ''Three'', content = ''<p>c</p>''\<rparr>])) ''OEBPS/toc.ncx'') =
     Some [(Some ''chapter1'', Some ''1''), (Some ''chapter2'', Some ''2''),
           (Some ''chapter3'', Some ''3'')] \<and>
   map_option navTargetsOf (dataNamed (archive (createEpub 1 1 ''T''
      [\<lparr>title = ''One'', content = ''<p>a</p>''\<rparr>, \<lparr>title = ''Two'', content = ''<p>b</p>''\<rparr>,
       \<lparr>title = ''Three'', content = ''<p>c</p>''\<rparr>])) ''OEBPS/toc.ncx'') =
     Some [Some ''chapter1.xhtml'', Some ''chapter2.xhtml'', Some ''chapter3.xhtml''] \<and>
   map_option navLabelsOf (dataNamed (archive (createEpub 1 1 ''T''
      [\<lparr>title = ''One'', content = ''<p>a</p>''\<rparr>, \<lparr>title = ''Two'', content = ''<p>b</p>''\<rparr>,
       \<lparr>title = ''Three'', content = ''<p>c</p>''\<rparr>])) ''OEBPS/toc.ncx'') =
     Some [''T'', ''One'', ''Two'', ''Three'']\<close>
proof -
  let ?cs = "[\<lparr>title = ''One'', content = ''<p>a</p>''\<rparr>, \<lparr>title = ''Two'', content = ''<p>b</p>''\<rparr>,
       \<lparr>title = ''Three'', content = ''<p>c</p>''\<rparr>]"
  note T = createEpub_chapter_structure [of 1 1 "''T''" ?cs]
  have c1: "map entryName (archive (createEpub 1 1 ''T'' ?cs)) =
     [''mimetype'', ''META-INF/'', ''META-INF/container.xml'', ''OEBPS/'',
      ''OEBPS/chapter1.xhtml'', ''OEBPS/chapter2.xhtml'', ''OEBPS/chapter3.xhtml'',
      ''OEBPS/content.opf'', ''OEBPS/toc.ncx'']"
    using T [THEN conjunct1] by (simp add: upt_1_4 num_eval)
  have ex: \<open>escapeXml ''T'' = ''T'' \<and> escapeXml ''One'' = ''One'' \<and> escapeXml ''Two'' = ''Two'' \<and>
      escapeXml ''Three'' = ''Three''\<close>
    by code_simp
  have c2: \<open>entryNamed (archive (createEpub 1 1 ''T'' ?cs)) ''OEBPS/chapter2.xhtml'' =
     Some \<lparr>entryName = ''OEBPS/chapter2.xhtml'',
           entryData =
             ''<?xml version="1.0" encoding="UTF-8"?>\<newline>'' @
                     ''<!DOCTYPE html>\<newline>'' @
                     ''<html xmlns="http://www.w3.org/1999/xhtml">\<newline>'' @
                     ''<head>\<newline>'' @
                     ''  <title>Two</title>\<newline>'' @
                     ''</head>\<newline>'' @
                     ''<body>\<newline>'' @
                     ''  <h1>Two</h1>\<newline>'' @
                     ''  <p>b</p>\<newline>'' @
                     ''</body>\<newline>'' @
                     ''</html>'',
           entryDir = False, entryCompression = None\<rparr>\<close>
    using T [THEN conjunct2, THEN conjunct2, THEN conjunct1, rule_format, of 1]
    by (simp add: num_eval chapter_xhtml_def ex)
  have c3: \<open>dataNamed (archive (createEpub 1 1 ''T'' ?cs)) ''OEBPS/content.opf'' =
     Some (''<?xml version="1.0" encoding="UTF-8"?>\<newline>'' @
          ''<package xmlns="http://www.idpf.org/2007/opf" version="3.0" unique-identifier="uid">\<newline>'' @
          ''  <metadata xmlns:dc="http://purl.org/dc/elements/1.1/">\<newline>'' @
          ''    <dc:title>T</dc:title>\<newline>'' @
          ''    <dc:creator>Literotica Author</dc:creator>\<newline>'' @
          ''    <dc:language>en</dc:language>\<newline>'' @
          ''    <dc:identifier id="uid">literotica-1</dc:identifier>\<newline>'' @
          ''  </metadata>\<newline>'' @
          ''  <manifest>\<newline>'' @
          ''    <item id="ncx" href="toc.ncx" media-type="application/x-dtbncx+xml"/>\<newline>'' @
          ''    <item id="chapter1" href="chapter1.xhtml" media-type="application/xhtml+xml"/>\<newline>'' @
          ''    <item id="chapter2" href="chapter2.xhtml" media-type="application/xhtml+xml"/>\<newline>'' @
          ''    <item id="chapter3" href="chapter3.xhtml" media-type="application/xhtml+xml"/>\<newline>'' @
          ''  </manifest>\<newline>'' @
          ''  <spine toc="ncx">\<newline>'' @
          ''    <itemref idref="chapter1"/>\<newline>'' @
          ''    <itemref idref="chapter2"/>\<newline>'' @
          ''    <itemref idref="chapter3"/>\<newline>'' @
          ''  </spine>\<newline>'' @
          ''</package>'')\<close>
    by (simp add: dataNamed_opf content_opf_def manifest_item_def spine_ref_def upt_0_3 num_eval ex)
  have c6: \<open>dataNamed (archive (createEpub 1 1 ''T'' ?cs)) ''OEBPS/toc.ncx'' =
     Some (''<?xml version="1.0" encoding="UTF-8"?>\<newline>'' @
          ''<ncx xmlns="http://www.daisy.org/z3986/2005/ncx/" version="2005-1">\<newline>'' @
          ''  <head>\<newline>'' @
          ''    <meta name="dtb:uid" content="literotica-1"/>\<newline>'' @
          ''    <meta name="dtb:depth" content="1"/>\<newline>'' @
          ''  </head>\<newline>'' @
          ''  <docTitle>\<newline>'' @
          ''    <text>T</text>\<newline>'' @
          ''  </docTitle>\<newline>'' @
          ''  <navMap>\<newline>'' @
          ''    <navPoint id="chapter1" playOrder="1">\<newline>'' @
          ''      <navLabel>\<newline>'' @
          ''        <text>One</text>\<newline>'' @
          ''      </navLabel>\<newline>'' @
          ''      <content src="chapter1.xhtml"/>\<newline>'' @
          ''    </navPoint>\<newline>'' @
          ''    <navPoint id="chapter2" playOrder="2">\<newline>'' @
          ''      <navLabel>\<newline>'' @
          ''        <text>Two</text>\<newline>'' @
          ''      </navLabel>\<newline>'' @
          ''      <content src="chapter2.xhtml"/>\<newline>'' @
          ''    </navPoint>\<newline>'' @
          ''    <navPoint id="chapter3" playOrder="3">\<newline>'' @
          ''      <navLabel>\<newline>'' @
          ''        <text>Three</text>\<newline>'' @
          ''      </navLabel>\<newline>'' @
          ''      <content src="chapter3.xhtml"/>\<newline>'' @
          ''    </navPoint>\<newline>'' @
          ''  </navMap>\<newline>'' @
          ''</ncx>'')\<close>
    by (simp add: dataNamed_ncx toc_ncx_def navPoint_def upt_0_3 num_eval ex)
  have c4: "map_option manifestOf (dataNamed (archive (createEpub 1 1 ''T'' ?cs)) ''OEBPS/content.opf'') =
     Some [(Some ''ncx'', Some ''toc.ncx''), (Some ''chapter1'', Some ''chapter1.xhtml''),
           (Some ''chapter2'', Some ''chapter2.xhtml''), (Some ''chapter3'', Some ''chapter3.xhtml'')]"
    using T [THEN conjunct2, THEN conjunct2, THEN conjunct2, THEN conjunct1]
    by (simp add: upt_1_4 num_eval)
  have c5: "map_option spineOf (dataNamed (archive (createEpub 1 1 ''T'' ?cs)) ''OEBPS/content.opf'') =
     Some [Some ''chapter1'', Some ''chapter2'', Some ''chapter3'']"
    using T [THEN conjunct2, THEN conjunct2, THEN conjunct2, THEN conjunct2, THEN conjunct1]
    by (simp add: upt_1_4 num_eval)
  have c7: "map_option navPointsOf (dataNamed (archive (createEpub 1 1 ''T'' ?cs)) ''OEBPS/toc.ncx'') =
     Some [(Some ''chapter1'', Some ''1''), (Some ''chapter2'', Some ''2''),
           (Some ''chapter3'', Some ''3'')]"
    using T [THEN conjunct2, THEN conjunct2, THEN conjunct2, THEN conjunct2, THEN conjunct2,
        THEN conjunct1]
    by (simp add: upt_1_4 num_eval)
  have c8: "map_option navTargetsOf (dataNamed (archive (createEpub 1 1 ''T'' ?cs)) ''OEBPS/toc.ncx'') =
     Some [Some ''chapter1.xhtml'', Some ''chapter2.xhtml'', Some ''chapter3.xhtml'']"
    using T [THEN conjunct2, THEN conjunct2, THEN conjunct2, THEN conjunct2, THEN conjunct2,
        THEN conjunct2, THEN conjunct1]
    by (simp add: upt_1_4 num_eval)
  have c9: "map_option navLabelsOf (dataNamed (archive (createEpub 1 1 ''T'' ?cs)) ''OEBPS/toc.ncx'') =
     Some [''T'', ''One'', ''Two'', ''Three'']"
    using T [THEN conjunct2, THEN conjunct2, THEN conjunct2, THEN conjunct2, THEN conjunct2,
        THEN conjunct2, THEN conjunct2, THEN conjunct1]
    by (simp add: ex)
  show ?thesis
    using c1 c2 c3 c4 c5 c6 c7 c8 c9 by (intro conjI)
qed

section \<open>Properties of fetchChapters and fetchChapterContent\<close>

lemma findContentDiv_firstMatch: "findContentDiv doc = firstMatch doc contentSelectors"
  by (simp add: findContentDiv_def contentSelectors_def split: option.split)

lemma firstMatch_None: "firstMatch doc sels = None \<longleftrightarrow> (\<forall>sel\<in>set sels. querySelector doc sel = None)"
  by (induction sels) (auto split: option.splits)

lemma fetch_loop_error:
  "fst (fetch_loop tr u maxRetries attempt lastError w) = Inl e \<Longrightarrow>
   attempt < maxRetries \<or> lastError \<noteq> None \<Longrightarrow>
   \<exists>m. e = Error (''Failed to fetch after '' @ show_nat maxRetries @ '' attempts: '' @ m)"
proof (induction tr u maxRetries attempt lastError w rule: fetch_loop.induct)
  case (1 tr u maxRetries attempt lastError w)
  show ?case
  proof (cases "attempt < maxRetries")
    case True
    let ?proxyUrl = "getProxy w @ encodeURIComponent u"
    let ?w1 = "w\<lparr>requests := requests w @ [?proxyUrl]\<rparr>"
    show ?thesis
    proof (cases "attempt_result (tr (length (requests w)) ?proxyUrl)")
      case (Inl err)
      with True "1.prems"(1)
      have "fst (fetch_loop tr u maxRetries (Suc attempt) (Some err) (rotate attempt maxRetries ?w1)) = Inl e"
        by (subst (asm) fetch_loop.simps) (simp add: Let_def)
      from "1.IH" [OF True refl refl Inl this] show ?thesis by simp
    next
      case (Inr t)
      with True "1.prems"(1) show ?thesis
        by (subst (asm) fetch_loop.simps) (simp add: Let_def)
    qed
  next
    case False
    with "1.prems" show ?thesis
      by (subst (asm) fetch_loop.simps) (auto split: option.splits)
  qed
qed

lemma fetchWithRetry_error:
  "fst (fetchWithRetry tr u 3 w) = Inl e \<Longrightarrow>
   \<exists>m. e = Error (''Failed to fetch after '' @ show_nat 3 @ '' attempts: '' @ m)"
  using fetch_loop_error [of tr u 3 0 None w e] by (simp add: fetchWithRetry_def)

text \<open>
  C6: of a retrieved chapter document, \<open>fetchChapterContent\<close> returns the cleaned
  \<open>innerHTML\<close> of the first element found along the chain \<open>.aa_ht\<close>,
  \<open>div.panel article\<close>, \<open>.b-story-body-x\<close>; and it throws the error
  \<open>Failed to fetch chapter n/t: Could not find story content for chapter n\<close>, which
  carries the chapter's position \<open>n\<close> and the total \<open>t\<close>, exactly when the document was
  retrieved and no selector of the chain matches.
\<close>

theorem fetchChapterContent_selectors:
  "(fst (fetchWithRetry tr u 3 w) = Inr html \<longrightarrow>
      fst (fetchChapterContent tr parseFromString u chapterNum totalChapters w) =
        (case firstMatch (parseFromString html) contentSelectors of
           None \<Rightarrow> Inl (Error (notFoundMessage chapterNum totalChapters))
         | Some contentDiv \<Rightarrow> Inr (cleanContent (innerHTML contentDiv)))) \<and>
   (fst (fetchChapterContent tr parseFromString u chapterNum totalChapters w) =
      Inl (Error (notFoundMessage chapterNum totalChapters)) \<longleftrightarrow>
    (\<exists>html. fst (fetchWithRetry tr u 3 w) = Inr html \<and>
       (\<forall>sel\<in>set contentSelectors. querySelector (parseFromString html) sel = None)))"
proof -
  obtain r w' where fw: "fetchWithRetry tr u 3 w = (r, w')"
    by (cases "fetchWithRetry tr u 3 w")
  show ?thesis
  proof (cases r)
    case (Inl e)
    then obtain m where e: "e = Error (''Failed to fetch after '' @ show_nat 3 @ '' attempts: '' @ m)"
      using fetchWithRetry_error [of tr u w e] fw by auto
    with Inl fw show ?thesis
      by (simp add: fetchChapterContent_def notFoundMessage_def)
  next
    case (Inr html)
    with fw show ?thesis
      by (auto simp add: fetchChapterContent_def notFoundMessage_def findContentDiv_firstMatch
          firstMatch_None [symmetric] split: option.splits)
  qed
qed






lemma fetchWithRetry_okTransport:
  "fetchWithRetry okTransport u 3 initialWorld =
     (Inr (replicate 100 CHR ''x''),
      initialWorld\<lparr>requests := [getProxy initialWorld @ encodeURIComponent u]\<rparr>)"
  by (simp add: fetchWithRetry_def fetch_loop.simps okTransport_def initialWorld_def Let_def
      response_ok_def)



theorem fetchChapterContent_selectors_witness:
  "fst (fetchChapterContent okTransport
          (pageWith ''div.panel article''
             [\<lparr>textContent = ''Once'', innerHTML = ''<p>Once</p>'', hrefAttribute = None\<rparr>])
          ''https://www.literotica.com/s/a-tale'' 2 5 initialWorld) =
     Inr (cleanContent ''<p>Once</p>'') \<and>
   cleanContent ''<p>Once</p>'' = ''<p>Once</p>'' \<and>
   fst (fetchChapterContent okTransport (pageWith ''p'' [])
          ''https://www.literotica.com/s/a-tale'' 2 5 initialWorld) =
     Inl (Error ''Failed to fetch chapter 2/5: Could not find story content for chapter 2'')"
proof -
  have f: "fst (fetchWithRetry okTransport ''https://www.literotica.com/s/a-tale'' 3 initialWorld) =
      Inr (replicate 100 CHR ''x'')"
    by (simp add: fetchWithRetry_okTransport)
  note T1 = fetchChapterContent_selectors [where tr = okTransport
      and u = "''https://www.literotica.com/s/a-tale''" and w = initialWorld
      and html = "replicate 100 CHR ''x''" and chapterNum = 2 and totalChapters = 5
      and parseFromString = "pageWith ''div.panel article''
             [\<lparr>textContent = ''Once'', innerHTML = ''<p>Once</p>'', hrefAttribute = None\<rparr>]"]
  note T2 = fetchChapterContent_selectors [where tr = okTransport
      and u = "''https://www.literotica.com/s/a-tale''" and w = initialWorld
      and html = "replicate 100 CHR ''x''" and chapterNum = 2 and totalChapters = 5
      and parseFromString = "pageWith ''p'' []"]
  have a: "fst (fetchChapterContent okTransport
          (pageWith ''div.panel article''
             [\<lparr>textContent = ''Once'', innerHTML = ''<p>Once</p>'', hrefAttribute = None\<rparr>])
          ''https://www.literotica.com/s/a-tale'' 2 5 initialWorld) =
     Inr (cleanContent ''<p>Once</p>'')"
    using T1 [THEN conjunct1, rule_format, OF f]
    by (simp add: contentSelectors_def querySelector_def pageWith_def)
  have b: "cleanContent ''<p>Once</p>'' = ''<p>Once</p>''"
    by code_simp
  have c: "fst (fetchChapterContent okTransport (pageWith ''p'' [])
          ''https://www.literotica.com/s/a-tale'' 2 5 initialWorld) =
     Inl (Error ''Failed to fetch chapter 2/5: Could not find story content for chapter 2'')"
    using T2 [THEN conjunct1, rule_format, OF f]
    by (simp add: contentSelectors_def querySelector_def pageWith_def notFoundMessage_def
        show_nat.simps digit_char_def char_of_def bit_Suc_0_iff)
  show ?thesis
    using a b c by (intro conjI)
qed

section \<open>Properties of the clean-up of the captured markup\<close>

lemma startsWithCI_iff:
  "startsWithCI s pat = prefix (map (canonicalize True) pat) (map (canonicalize True) s)"
  by (induction s pat rule: startsWithCI.induct) (auto simp add: startsWithCI.simps)

lemma lit_Nil: "lit [] = Eps"
  by (simp add: lit_def)

lemma lit_Cons: "lit (c # cs) = Seq (Chr c) (lit cs)"
  by (simp add: lit_def)

lemma ms_lit:
  "ms ic (lit pat) (p, s) =
     (if prefix (map (canonicalize ic) pat) (map (canonicalize ic) s)
      then [(prevAfter p (take (length pat) s), drop (length pat) s)] else [])"
proof (induction pat arbitrary: p s)
  case Nil
  show ?case by (simp add: lit_Nil prevAfter_def)
next
  case (Cons c cs)
  show ?case
  proof (cases s)
    case Nil
    then show ?thesis by (simp add: lit_Cons)
  next
    case (Cons x xs)
    then show ?thesis
      by (auto simp add: lit_Cons Cons.IH prevAfter_def)
  qed
qed

lemma ms_suffix_all: "\<forall>q\<in>set (ms ic r c). suffix (snd q) (snd c)"
proof (induction ic r c rule: ms.induct)
  case (1 ic p s)
  then show ?case by simp
next
  case (2 ic c p s)
  then show ?case by (auto split: list.splits if_splits simp add: suffix_Cons)
next
  case (3 ic rs p s)
  then show ?case by (auto split: list.splits if_splits simp add: suffix_Cons)
next
  case (4 ic p s)
  then show ?case by (auto split: if_splits)
next
  case (5 ic r p s)
  then show ?case by (auto split: if_splits)
next
  case (6 ic r1 r2 p s)
  show ?case
  proof
    fix q assume "q \<in> set (ms ic (Seq r1 r2) (p, s))"
    then obtain m where m: "m \<in> set (ms ic r1 (p, s))" "q \<in> set (ms ic r2 m)"
      by auto
    from "6.IH"(1) m(1) have "suffix (snd m) s" by auto
    moreover from "6.IH"(2) [OF m(1)] m(2) have "suffix (snd q) (snd m)" by auto
    ultimately show "suffix (snd q) (snd (p, s))"
      by (simp add: suffix_order.trans)
  qed
next
  case (7 ic r p s)
  show ?case
  proof
    fix q assume "q \<in> set (ms ic (Star r) (p, s))"
    then consider
        (stop) "q = (p, s)"
      | (iter) m where "m \<in> set (filter (\<lambda>q. length (snd q) < length s) (ms ic r (p, s)))"
          "q \<in> set (ms ic (Star r) m)"
      by (subst (asm) ms.simps(7)) auto
    then show "suffix (snd q) (snd (p, s))"
    proof cases
      case stop
      then show ?thesis by simp
    next
      case iter
      from "7.IH"(1) iter(1) have "suffix (snd m) s" by auto
      moreover from "7.IH"(2) [OF iter(1)] iter(2) have "suffix (snd q) (snd m)" by auto
      ultimately show ?thesis
        by (simp add: suffix_order.trans)
    qed
  qed
qed

lemma ms_suffix: "(p', s') \<in> set (ms ic r (p, s)) \<Longrightarrow> suffix s' s"
  using ms_suffix_all [of ic r "(p, s)"] by auto

lemma canonicalize_lt_iff:
  "canonicalize True x = canonicalize True CHR ''<'' \<longleftrightarrow> x = CHR ''<''"
proof -
  have c: "code CHR ''<'' = 60" by (simp add: code_def)
  have "code (canonicalize True x) = code (canonicalize True CHR ''<'') \<longleftrightarrow>
        code x = code CHR ''<''"
    unfolding canonicalize_code c by auto
  moreover have "code a = code b \<longleftrightarrow> a = b" for a b
    by (simp add: code_def)
  ultimately show ?thesis by simp
qed

lemma inClass_lt: "inClass True [(CHR ''<'', CHR ''<'')] x \<longleftrightarrow> x = CHR ''<''"
proof -
  have "members [(CHR ''<'', CHR ''<'')] = [CHR ''<'']"
    by (simp add: members_def code_def char_of_def bit_Suc_0_iff)
  then show ?thesis
    using canonicalize_lt_iff [of x] by (auto simp add: inClass_def)
qed

lemma ms_notLt:
  "ms True notLt (p, s) = (case s of [] \<Rightarrow> [] | x # xs \<Rightarrow> if x = CHR ''<'' then [] else [(Some x, xs)])"
  by (simp add: notLt_def inClass_lt split: list.split)

lemma ms_star_notLt_Nil: "ms True (Star notLt) (p, []) = [(p, [])]"
  by (subst ms.simps(7)) (simp add: ms_notLt)

lemma ms_star_notLt_lt: "ms True (Star notLt) (p, CHR ''<'' # xs) = [(p, CHR ''<'' # xs)]"
  by (subst ms.simps(7)) (simp add: ms_notLt)

lemma ms_star_notLt_other:
  "x \<noteq> CHR ''<'' \<Longrightarrow>
   ms True (Star notLt) (p, x # xs) = ms True (Star notLt) (Some x, xs) @ [(p, x # xs)]"
  by (subst ms.simps(7)) (simp add: ms_notLt)

lemma ms_Seq: "ms ic (Seq r1 r2) q = concat (map (ms ic r2) (ms ic r1 q))"
  by (cases q) simp

lemma ms_Seq_Eps: "ms ic (Seq r Eps) q = ms ic r q"
proof -
  have "concat (map (ms ic Eps) qs) = qs" for qs
    by (induction qs) auto
  then show ?thesis by (simp add: ms_Seq)
qed

lemma startsWithCI_prefix:
  "prefix (map (canonicalize True) pat) (map (canonicalize True) s) \<longleftrightarrow> startsWithCI s pat"
  by (simp add: startsWithCI_iff)

lemma startsWithCI_lt:
  "startsWithCI (x # xs) (CHR ''<'' # cl) \<Longrightarrow> x = CHR ''<''"
  using canonicalize_lt_iff [of x] by (auto simp add: startsWithCI_iff)

lemma ms_lit_CI:
  "ms True (lit pat) (p, s) =
     (if startsWithCI s pat then [(prevAfter p (take (length pat) s), drop (length pat) s)]
      else [])"
  by (simp add: ms_lit startsWithCI_iff)

lemma ms_lt_then:
  "ms True (Seq (Chr CHR ''<'') r) (p, s) =
     (case s of [] \<Rightarrow> []
      | x # xs \<Rightarrow> if x = CHR ''<'' then ms True r (Some x, xs) else [])"
  by (cases s) (simp_all add: canonicalize_lt_iff)

lemma ms_group:
  "ms True (seqs [NegLook (lit cl), Chr CHR ''<'', Star notLt]) (p, s) =
     (if startsWithCI s cl then []
      else case s of [] \<Rightarrow> []
           | x # xs \<Rightarrow> if x = CHR ''<'' then ms True (Star notLt) (Some x, xs) else [])"
proof -
  have g: "seqs [NegLook (lit cl), Chr CHR ''<'', Star notLt] =
      Seq (NegLook (lit cl)) (Seq (Chr CHR ''<'') (Seq (Star notLt) Eps))"
    by (simp add: seqs_def)
  have "ms True (Seq (NegLook (lit cl)) r) (p, s) =
      (if startsWithCI s cl then [] else ms True r (p, s))" for r
    by (simp add: ms_lit_CI)
  then show ?thesis
    unfolding g by (simp only: ms_lt_then ms_Seq_Eps)
qed

lemma untilClose_unfold:
  "ms True (untilClose cl) (p, s) =
     concat (map (ms True (untilClose cl))
       (filter (\<lambda>q. length (snd q) < length s)
          (ms True (seqs [NegLook (lit cl), Chr CHR ''<'', Star notLt]) (p, s))))
     @ ms True (lit cl) (p, s)"
proof -
  let ?G = "seqs [NegLook (lit cl), Chr CHR ''<'', Star notLt]"
  let ?L = "Seq (lit cl) Eps"
  have "ms True (untilClose cl) (p, s) = concat (map (ms True ?L) (ms True (Star ?G) (p, s)))"
    by (simp add: untilClose_def)
  also have "\<dots> = concat (map (ms True ?L)
        (concat (map (ms True (Star ?G)) (filter (\<lambda>q. length (snd q) < length s) (ms True ?G (p, s))))))
      @ ms True ?L (p, s)"
    by (subst ms.simps(7)) simp
  also have "concat (map (ms True ?L)
        (concat (map (ms True (Star ?G)) (filter (\<lambda>q. length (snd q) < length s) (ms True ?G (p, s)))))) =
      concat (map (ms True (untilClose cl)) (filter (\<lambda>q. length (snd q) < length s) (ms True ?G (p, s))))"
    unfolding concat_map_concat_map untilClose_def by (simp only: ms_Seq [symmetric])
  also have "ms True ?L (p, s) = ms True (lit cl) (p, s)"
    by (rule ms_Seq_Eps)
  finally show ?thesis .
qed

lemma not_startsWithCI_Nil: "\<not> startsWithCI [] (c # cl)"
  by (simp add: startsWithCI_iff)

lemma untilClose_Nil: "ms True (untilClose (CHR ''<'' # cl)) (p, []) = []"
  by (subst untilClose_unfold) (simp add: ms_group ms_lit_CI not_startsWithCI_Nil)

lemma untilClose_other:
  "x \<noteq> CHR ''<'' \<Longrightarrow> ms True (untilClose (CHR ''<'' # cl)) (p, x # xs) = []"
  using startsWithCI_lt [of x xs cl]
  by (subst untilClose_unfold) (auto simp add: ms_group ms_lit_CI)

lemma untilClose_match:
  "startsWithCI s cl \<Longrightarrow>
   ms True (untilClose cl) (p, s) = [(prevAfter p (take (length cl) s), drop (length cl) s)]"
  by (subst untilClose_unfold) (simp add: ms_group ms_lit_CI)

lemma filter_shorter:
  "filter (\<lambda>q. length (snd q) < Suc (length xs)) (ms True r (p, xs)) = ms True r (p, xs)"
proof -
  have "length (snd q) < Suc (length xs)" if "q \<in> set (ms True r (p, xs))" for q
  proof -
    from ms_suffix_all [of True r "(p, xs)"] that have "suffix (snd q) xs" by fastforce
    then have "length (snd q) \<le> length xs" by (rule suffix_length_le)
    then show ?thesis by simp
  qed
  then show ?thesis by (simp add: filter_id_conv)
qed

lemma untilClose_step:
  "\<not> startsWithCI (CHR ''<'' # xs) cl \<Longrightarrow>
   ms True (untilClose cl) (p, CHR ''<'' # xs) =
     ms True (Seq (Star notLt) (untilClose cl)) (Some CHR ''<'', xs)"
  by (subst untilClose_unfold) (simp add: ms_group ms_lit_CI filter_shorter)

lemma skipTo_Nil: "ms True (Seq (Star notLt) (untilClose (CHR ''<'' # cl))) (p, []) = []"
  by (simp add: ms_star_notLt_Nil untilClose_Nil)

lemma skipTo_other:
  "x \<noteq> CHR ''<'' \<Longrightarrow>
   ms True (Seq (Star notLt) (untilClose (CHR ''<'' # cl))) (p, x # xs) =
     ms True (Seq (Star notLt) (untilClose (CHR ''<'' # cl))) (Some x, xs)"
  by (simp add: ms_star_notLt_other untilClose_other)

lemma skipTo_match:
  "startsWithCI (CHR ''<'' # xs) cl \<Longrightarrow>
   ms True (Seq (Star notLt) (untilClose cl)) (p, CHR ''<'' # xs) =
     [(prevAfter p (take (length cl) (CHR ''<'' # xs)), drop (length cl) (CHR ''<'' # xs))]"
  by (simp add: ms_star_notLt_lt untilClose_match)

lemma skipTo_step:
  "\<not> startsWithCI (CHR ''<'' # xs) cl \<Longrightarrow>
   ms True (Seq (Star notLt) (untilClose cl)) (p, CHR ''<'' # xs) =
     ms True (Seq (Star notLt) (untilClose cl)) (Some CHR ''<'', xs)"
  using untilClose_step [of xs cl p] by (simp add: ms_star_notLt_lt)

lemma skipTo_afterFirst:
  "map snd (ms True (Seq (Star notLt) (untilClose (CHR ''<'' # cl))) (p, s)) =
     (case afterFirstCI (CHR ''<'' # cl) s of None \<Rightarrow> [] | Some rest \<Rightarrow> [rest])"
proof (induction s arbitrary: p)
  case Nil
  show ?case by (simp only: skipTo_Nil) simp
next
  case (Cons x xs)
  show ?case
  proof (cases "x = CHR ''<''")
    case lt: True
    show ?thesis
    proof (cases "startsWithCI (x # xs) (CHR ''<'' # cl)")
      case True
      then show ?thesis
        using lt skipTo_match [of xs "CHR ''<'' # cl" p] by (simp del: ms.simps(1-6))
    next
      case False
      then show ?thesis
        using lt skipTo_step [of xs "CHR ''<'' # cl" p] Cons.IH [of "Some CHR ''<''"]
        by (simp del: ms.simps(1-6))
    qed
  next
    case False
    then have "\<not> startsWithCI (x # xs) (CHR ''<'' # cl)"
      using startsWithCI_lt by blast
    then show ?thesis
      using False skipTo_other [of x cl p xs] Cons.IH [of "Some x"]
      by (simp del: ms.simps(1-6))
  qed
qed

lemma block_re_shape:
  "block_re tag =
     Seq (lit (''<'' @ tag))
       (Seq WordB (Seq (Star notLt) (untilClose (''</'' @ tag @ ''>''))))"
  by (simp add: block_re_def seqs_def untilClose_def)

lemma startsWithCI_last:
  assumes "startsWithCI s pat" "pat \<noteq> []"
  shows "canonicalize True (last (take (length pat) s)) = canonicalize True (last pat)"
proof -
  from assms(1) have "map (canonicalize True) (take (length pat) s) = map (canonicalize True) pat"
    unfolding startsWithCI_iff prefix_def by (auto simp add: take_map [symmetric])
  moreover have "take (length pat) s \<noteq> []"
    using calculation assms(2) by auto
  ultimately show ?thesis
    using assms(2) by (metis last_map)
qed

lemma letter_isWordChar:
  assumes "97 \<le> code c" "code c \<le> 122" "canonicalize True y = canonicalize True c"
  shows "isWordChar y"
proof -
  from assms(3) have "code (canonicalize True y) = code (canonicalize True c)" by simp
  with assms(1,2) show ?thesis
    unfolding canonicalize_code isWordChar_def by (auto split: if_splits)
qed

lemma ms_block:
  assumes "lowerTag tag"
  shows "map snd (ms True (block_re tag) (p, s)) =
     (if opensBlock tag s
      then (case afterFirstCI (''</'' @ tag @ ''>'') (drop (length (''<'' @ tag)) s) of
              None \<Rightarrow> [] | Some rest \<Rightarrow> [rest])
      else [])"
proof (cases "startsWithCI s (''<'' @ tag)")
  case False
  then show ?thesis
    by (simp add: block_re_shape ms_lit_CI opensBlock_def del: ms.simps(1-6))
       (simp add: ms_Seq ms_lit_CI)
next
  case True
  let ?q = "prevAfter p (take (length (''<'' @ tag)) s)"
  let ?t = "drop (length (''<'' @ tag)) s"
  have "canonicalize True (last (take (length (''<'' @ tag)) s)) = canonicalize True (last (''<'' @ tag))"
    using True by (rule startsWithCI_last) simp
  moreover have "last (''<'' @ tag) = last tag"
    using assms by (simp add: lowerTag_def)
  ultimately have "isWordChar (last (take (length (''<'' @ tag)) s))"
    using assms letter_isWordChar [of "last tag"] by (simp add: lowerTag_def)
  moreover have "take (length (''<'' @ tag)) s \<noteq> []"
    using True by (auto simp add: startsWithCI_iff)
  ultimately have wb: "wordBefore ?q"
    by (simp add: prevAfter_def wordBefore_def)
  have "ms True (block_re tag) (p, s) =
      ms True (Seq WordB (Seq (Star notLt) (untilClose (''</'' @ tag @ ''>'')))) (?q, ?t)"
    unfolding block_re_shape ms_Seq [of True "lit (''<'' @ tag)"] using True
    by (simp add: ms_lit_CI del: ms.simps(1-6))
  also have "\<dots> = (if wordAt ?t then []
      else ms True (Seq (Star notLt) (untilClose (''</'' @ tag @ ''>''))) (?q, ?t))"
    unfolding ms_Seq [of True WordB] using wb by (simp del: ms.simps(6))
  finally show ?thesis
    using True skipTo_afterFirst [of "''/'' @ tag @ ''>''" ?q ?t]
    by (simp add: opensBlock_def del: ms.simps(1-6))
qed

lemma afterFirstCI_suffix: "afterFirstCI pat t = Some r \<Longrightarrow> suffix r t"
proof (induction t)
  case Nil
  then show ?case by (simp split: if_splits)
next
  case (Cons a t)
  show ?case
  proof (cases "startsWithCI (a # t) pat")
    case True
    with Cons.prems have "r = drop (length pat) (a # t)" by simp
    then show ?thesis by (simp only: suffix_drop)
  next
    case False
    with Cons have "suffix r t" by simp
    then show ?thesis by (rule suffix_ConsI)
  qed
qed

lemma ms_block_none:
  assumes "lowerTag tag"
    and "\<not> opensBlock tag s \<or>
         afterFirstCI (''</'' @ tag @ ''>'') (drop (length (''<'' @ tag)) s) = None"
  shows "ms True (block_re tag) (p, s) = []"
proof -
  have "map snd (ms True (block_re tag) (p, s)) = []"
    using assms(2) by (auto simp add: ms_block [OF assms(1)])
  then show ?thesis by simp
qed

lemma ms_block_some:
  assumes "lowerTag tag" "opensBlock tag s"
    and "afterFirstCI (''</'' @ tag @ ''>'') (drop (length (''<'' @ tag)) s) = Some rest"
  shows "\<exists>q. ms True (block_re tag) (p, s) = [(q, rest)]"
proof -
  have "map snd (ms True (block_re tag) (p, s)) = [rest]"
    using assms(2,3) by (simp add: ms_block [OF assms(1)])
  then show ?thesis
    by (cases "ms True (block_re tag) (p, s)") auto
qed

lemma replace_from_block:
  "lowerTag tag \<Longrightarrow> replace_from True (block_re tag) [] p s = stripBlocks tag s"
proof (induction tag s arbitrary: p rule: stripBlocks.induct)
  case (1 tag)
  have "\<not> opensBlock tag []"
    by (simp add: opensBlock_def startsWithCI_iff)
  then have "ms True (block_re tag) (p, []) = []"
    using ms_block_none [OF "1.prems"] by blast
  then show ?case
    by (subst replace_from.simps) simp
next
  case (2 tag x xs)
  note lt = "2.prems"
  let ?s = "x # xs"
  show ?case
  proof (cases "opensBlock tag ?s")
    case False
    then have "ms True (block_re tag) (p, ?s) = []"
      using ms_block_none [OF lt] by blast
    with False "2.IH"(3) [OF False lt, of "Some x"] show ?thesis
      by (subst replace_from.simps, subst stripBlocks.simps(2)) simp
  next
    case opens: True
    show ?thesis
    proof (cases "afterFirstCI (''</'' @ tag @ ''>'') (drop (length (''<'' @ tag)) ?s)")
      case None
      then have "ms True (block_re tag) (p, ?s) = []"
        using ms_block_none [OF lt] by blast
      with opens None "2.IH"(1) [OF opens None lt, of "Some x"] show ?thesis
        by (subst replace_from.simps, subst stripBlocks.simps(2)) simp
    next
      case (Some rest)
      from ms_block_some [OF lt opens Some] obtain q
        where m: "ms True (block_re tag) (p, ?s) = [(q, rest)]" by blast
      from afterFirstCI_suffix [OF Some] have "suffix rest (drop (length tag) xs)"
        by simp
      then have "length rest \<le> length (drop (length tag) xs)"
        by (rule suffix_length_le)
      then have len: "length rest < length ?s"
        by simp
      from opens Some m len "2.IH"(2) [OF opens Some lt, of q] show ?thesis
        by (subst replace_from.simps, subst stripBlocks.simps(2)) simp
    qed
  qed
qed

lemma subseq_stripBlocks: "subseq (stripBlocks tag s) s"
proof (induction tag s rule: stripBlocks.induct)
  case (1 tag)
  show ?case by simp
next
  case (2 tag x xs)
  show ?case
  proof (cases "opensBlock tag (x # xs)")
    case False
    with "2.IH"(3) show ?thesis
      by (subst stripBlocks.simps(2)) simp
  next
    case opens: True
    show ?thesis
    proof (cases "afterFirstCI (''</'' @ tag @ ''>'') (drop (length (''<'' @ tag)) (x # xs))")
      case None
      with opens "2.IH"(1) show ?thesis
        by (subst stripBlocks.simps(2)) simp
    next
      case (Some rest)
      from afterFirstCI_suffix [OF Some] have "suffix rest (drop (length (''<'' @ tag)) (x # xs))" .
      then have "suffix rest (x # xs)"
        using suffix_drop suffix_order.trans by blast
      then have "subseq rest (x # xs)"
        by (rule suffix_imp_subseq)
      with "2.IH"(2) [OF opens Some] have "subseq (stripBlocks tag rest) (x # xs)"
        using subseq_order.trans by blast
      with opens Some show ?thesis
        by (subst stripBlocks.simps(2)) simp
    qed
  qed
qed

lemma afterFirstCI_suffix_mono:
  "suffix t s \<Longrightarrow> afterFirstCI pat t \<noteq> None \<Longrightarrow> afterFirstCI pat s \<noteq> None"
proof (induction s)
  case Nil
  then show ?case by simp
next
  case (Cons x xs)
  show ?case
  proof (cases "t = x # xs")
    case True
    with Cons.prems show ?thesis by simp
  next
    case False
    with Cons.prems have "suffix t xs" by (simp add: suffix_Cons)
    with Cons have "afterFirstCI pat xs \<noteq> None" by simp
    then show ?thesis by simp
  qed
qed

lemma stripBlocks_id:
  "\<not> containsCI s (''</'' @ tag @ ''>'') \<Longrightarrow> stripBlocks tag s = s"
proof (induction s)
  case Nil
  show ?case by simp
next
  case (Cons x xs)
  let ?cl = "''</'' @ tag @ ''>''"
  from Cons.prems have none: "afterFirstCI ?cl (x # xs) = None"
    by (simp add: containsCI_def)
  then have "afterFirstCI ?cl xs = None"
    by (simp split: if_splits)
  then have ih: "stripBlocks tag xs = xs"
    using Cons.IH by (simp add: containsCI_def)
  have "suffix (drop (length (''<'' @ tag)) (x # xs)) (x # xs)"
    by (rule suffix_drop)
  from afterFirstCI_suffix_mono [OF this, of ?cl] none
  have "afterFirstCI ?cl (drop (length (''<'' @ tag)) (x # xs)) = None"
    by blast
  with ih show ?case
    by (subst stripBlocks.simps(2)) simp
qed

lemma lowerTags: "lowerTag ''script''" "lowerTag ''style''" "lowerTag ''iframe''"
  by (simp_all add: lowerTag_def code_def)

lemma cleanContent_stripBlocks:
  "cleanContent c = stripBlocks ''iframe'' (stripBlocks ''style'' (stripBlocks ''script'' c))"
  by (simp only: cleanContent_def replaceAll_def replace_from_block [OF lowerTags(1)]
      replace_from_block [OF lowerTags(2)] replace_from_block [OF lowerTags(3)])

text \<open>
  C7, as amended: the clean-up works on the text of the captured markup, not on its
  structure. For \<open>script\<close>, then \<open>style\<close>, then \<open>iframe\<close>, reading from the left, it
  deletes every stretch that begins at \<open><tag\<close> followed by no word character and runs
  through the first \<open></tag>\<close> after it (letters compared without case), and keeps every
  other code unit in place: the result is the input with such stretches deleted, so
  nothing is added or reordered, and markup in which none of the three closing tags occurs
  is returned verbatim.
\<close>

theorem cleanContent_textual:
  "cleanContent c = stripBlocks ''iframe'' (stripBlocks ''style'' (stripBlocks ''script'' c)) \<and>
   subseq (cleanContent c) c \<and>
   (\<not> containsCI c ''</script>'' \<and> \<not> containsCI c ''</style>'' \<and> \<not> containsCI c ''</iframe>''
      \<longrightarrow> cleanContent c = c)"
proof (intro conjI impI)
  show "cleanContent c = stripBlocks ''iframe'' (stripBlocks ''style'' (stripBlocks ''script'' c))"
    by (rule cleanContent_stripBlocks)
next
  have "subseq (stripBlocks ''script'' c) c"
    by (rule subseq_stripBlocks)
  moreover have "subseq (stripBlocks ''style'' (stripBlocks ''script'' c)) (stripBlocks ''script'' c)"
    by (rule subseq_stripBlocks)
  moreover have "subseq (stripBlocks ''iframe'' (stripBlocks ''style'' (stripBlocks ''script'' c)))
      (stripBlocks ''style'' (stripBlocks ''script'' c))"
    by (rule subseq_stripBlocks)
  ultimately show "subseq (cleanContent c) c"
    unfolding cleanContent_stripBlocks by (meson subseq_order.trans)
next
  assume none: "\<not> containsCI c ''</script>'' \<and> \<not> containsCI c ''</style>'' \<and>
      \<not> containsCI c ''</iframe>''"
  have 1: "stripBlocks ''script'' c = c"
    using stripBlocks_id [of c "''script''"] none by simp
  have 2: "stripBlocks ''style'' c = c"
    using stripBlocks_id [of c "''style''"] none by simp
  have 3: "stripBlocks ''iframe'' c = c"
    using stripBlocks_id [of c "''iframe''"] none by simp
  show "cleanContent c = c"
    by (simp only: cleanContent_stripBlocks 1 2 3)
qed

text \<open>
  C7 as stated fails: in \<open><!-- <script> --><p>Story</p><script>x</script>\<close> the paragraph
  belongs to no script, style or iframe element, yet the first pattern matches from the
  \<open><script\<close> inside the comment through the closing tag of the real script and the
  paragraph is deleted with it.
\<close>

theorem cleanContent_counterexample:
  "cleanContent ''<!-- <script> --><p>Story</p><script>x</script>'' = ''<!-- '' \<and>
   \<not> sublist ''<p>Story</p>'' (cleanContent ''<!-- <script> --><p>Story</p><script>x</script>'')"
proof -
  have "cleanContent ''<!-- <script> --><p>Story</p><script>x</script>'' = ''<!-- ''"
    unfolding cleanContent_stripBlocks by code_simp
  moreover have "\<not> sublist ''<p>Story</p>'' ''<!-- ''"
    by code_simp
  ultimately show ?thesis by simp
qed

theorem cleanContent_textual_witness:
  "cleanContent ''<p>Hi</p><SCRIPT src=a>go(1 < 2)</script><p>Bye</p>'' = ''<p>Hi</p><p>Bye</p>'' \<and>
   subseq ''<p>Hi</p><p>Bye</p>'' ''<p>Hi</p><SCRIPT src=a>go(1 < 2)</script><p>Bye</p>'' \<and>
   cleanContent ''<p>Once</p>'' = ''<p>Once</p>''"
proof -
  have e: "stripBlocks ''iframe'' (stripBlocks ''style'' (stripBlocks ''script''
      ''<p>Hi</p><SCRIPT src=a>go(1 < 2)</script><p>Bye</p>'')) = ''<p>Hi</p><p>Bye</p>''"
    by code_simp
  have n: "\<not> containsCI ''<p>Once</p>'' ''</script>'' \<and> \<not> containsCI ''<p>Once</p>'' ''</style>'' \<and>
      \<not> containsCI ''<p>Once</p>'' ''</iframe>''"
    by code_simp
  note T1 = cleanContent_textual [of "''<p>Hi</p><SCRIPT src=a>go(1 < 2)</script><p>Bye</p>''"]
  note T2 = cleanContent_textual [of "''<p>Once</p>''"]
  have a: "cleanContent ''<p>Hi</p><SCRIPT src=a>go(1 < 2)</script><p>Bye</p>'' = ''<p>Hi</p><p>Bye</p>''"
    using T1 [THEN conjunct1] e by simp
  have b: "subseq ''<p>Hi</p><p>Bye</p>'' ''<p>Hi</p><SCRIPT src=a>go(1 < 2)</script><p>Bye</p>''"
    using T1 [THEN conjunct2, THEN conjunct1] a by simp
  have c: "cleanContent ''<p>Once</p>'' = ''<p>Once</p>''"
    using T2 [THEN conjunct2, THEN conjunct2] n by blast
  show ?thesis using a b c by (intro conjI)
qed

end
